theory Spec2Isabelle
  imports Main "HOL-Library.Word"
begin

section \<open>Errors, bytes and PIN padding\<close>

text \<open>
  The Go package \<open>keysharecore\<close> is embedded function by function. Fallible
  functions return \<open>error + 'a\<close> (\<open>Inl\<close> is the Go \<open>err\<close>), the receiver
  \<open>c *Core\<close> is an explicit record, and every value that the Go code obtains from
  its surroundings (random bytes, the clock, the Idemix primitives of gabi) is an
  explicit argument of the function that reads it: one argument per read, in the
  order of the reads, after the arguments of the Go function.
\<close>

type_synonym byte = "8 word"

text \<open>
  The six error values the file declares, and two that reach it from outside: the
  error of a failed packet decryption (\<open>InvalidPacket\<close> in the specification) and the
  error of a failed random draw, signing step or Idemix primitive (\<open>Internal\<close>).
\<close>

datatype error =
    ErrInvalidPin
  | ErrPinTooLong
  | ErrInvalidChallenge
  | ErrInvalidJWT
  | ErrKeyNotFound
  | ErrUnknownCommit
  | ErrInvalidPacket
  | ErrInternal

text \<open>Go's \<open>[]byte(s)\<close>: a Go string is its bytes, and so is an Isabelle \<open>string\<close>.\<close>

definition bytes_of :: "string \<Rightarrow> byte list" where
  "bytes_of s = map of_char s"

text \<open>
  Go's builtin \<open>copy(dst, src)\<close>: the first \<open>min (len dst) (len src)\<close> elements of
  \<open>dst\<close> are overwritten, the rest of \<open>dst\<close> stays.
\<close>

definition copy_bytes :: "'a list \<Rightarrow> 'a list \<Rightarrow> 'a list" where
  "copy_bytes dst src = take (length dst) src @ drop (length src) dst"

text \<open>
  \<open>padPin\<close>: \<open>data := []byte(pin)\<close>; more than 64 bytes is \<open>ErrPinTooLong\<close>; otherwise
  \<open>data\<close> is copied into a zeroed \<open>[64]byte\<close>.
\<close>

definition padPin :: "string \<Rightarrow> error + byte list" where
  "padPin pin =
     (let data = bytes_of pin in
      if length data > 64 then Inl ErrPinTooLong
      else Inr (copy_bytes (replicate 64 0) data))"

text \<open>
  \<open>hmac.Equal\<close>: equality of two byte strings (computed in constant time; strings of
  different lengths are unequal).
\<close>

definition hmac_Equal :: "byte list \<Rightarrow> byte list \<Rightarrow> bool" where
  "hmac_Equal a b = (a = b)"

section \<open>Standard base64\<close>

text \<open>
  Go's \<open>base64.StdEncoding\<close>: the standard alphabet, with \<open>=\<close> padding.
  \<open>EncodeToString\<close> turns each group of three bytes into the 24-bit value
  \<open>val\<close> and emits its four 6-bit digits; a last group of one or two bytes is
  padded. \<open>DecodeString\<close> skips carriage returns and line feeds, reads quanta of
  four characters, accepts padding only at the very end, and fails (\<open>None\<close>, Go's
  \<open>CorruptInputError\<close>) on any other character or on a truncated quantum.
\<close>

definition encodeStd :: string where
  "encodeStd = ''ABCDEFGHIJKLMNOPQRSTUVWXYZabcdefghijklmnopqrstuvwxyz0123456789+/''"

definition enc64 :: "nat \<Rightarrow> char" where
  "enc64 v = encodeStd ! (v mod 64)"

fun index_of :: "'a \<Rightarrow> 'a list \<Rightarrow> nat option" where
  "index_of x [] = None"
| "index_of x (y # ys) = (if x = y then Some 0 else map_option Suc (index_of x ys))"

definition dec64 :: "char \<Rightarrow> nat option" where
  "dec64 ch = index_of ch encodeStd"

fun EncodeToString :: "byte list \<Rightarrow> string" where
  "EncodeToString (a # b # c # rest) =
     (let val = unat a * 65536 + unat b * 256 + unat c in
      [enc64 (val div 262144), enc64 (val div 4096), enc64 (val div 64), enc64 val]
        @ EncodeToString rest)"
| "EncodeToString [a, b] =
     (let val = unat a * 65536 + unat b * 256 in
      [enc64 (val div 262144), enc64 (val div 4096), enc64 (val div 64), CHR ''=''])"
| "EncodeToString [a] =
     (let val = unat a * 65536 in
      [enc64 (val div 262144), enc64 (val div 4096), CHR ''='', CHR ''=''])"
| "EncodeToString [] = []"

fun decodeQuanta :: "string \<Rightarrow> byte list option" where
  "decodeQuanta (c0 # c1 # c2 # c3 # rest) =
     (case (dec64 c0, dec64 c1) of
        (Some v0, Some v1) \<Rightarrow>
          if c2 = CHR ''='' then
            (if c3 = CHR ''='' \<and> rest = []
             then Some [of_nat ((v0 * 262144 + v1 * 4096) div 65536)]
             else None)
          else
            (case dec64 c2 of
               None \<Rightarrow> None
             | Some v2 \<Rightarrow>
                 if c3 = CHR ''='' then
                   (if rest = []
                    then (let val = v0 * 262144 + v1 * 4096 + v2 * 64 in
                          Some [of_nat (val div 65536), of_nat (val div 256)])
                    else None)
                 else
                   (case dec64 c3 of
                      None \<Rightarrow> None
                    | Some v3 \<Rightarrow>
                        (let val = v0 * 262144 + v1 * 4096 + v2 * 64 + v3 in
                         map_option
                           (\<lambda>bs. of_nat (val div 65536) # of_nat (val div 256) # of_nat val # bs)
                           (decodeQuanta rest))))
      | _ \<Rightarrow> None)"
| "decodeQuanta [] = Some []"
| "decodeQuanta _ = None"

definition DecodeString :: "string \<Rightarrow> byte list option" where
  "DecodeString s = decodeQuanta (filter (\<lambda>ch. ch \<noteq> CHR 0x0D \<and> ch \<noteq> CHR 0x0A) s)"

section \<open>The keyshare packet and its cipher\<close>

text \<open>
  Modelled from the spec: the type \<open>unencryptedKeysharePacket\<close> and its accessors
  \<open>pin\<close>, \<open>setPin\<close>, \<open>keyshareSecret\<close>, \<open>setKeyshareSecret\<close>, \<open>id\<close> and \<open>setID\<close>
  are declared in a file of the package that is not among the sources. The
  specification gives the packet three fields in a fixed layout: \<open>pin_hash\<close> (64
  bytes, the zero-padded PIN), \<open>secret\<close> (the keyshare secret, a big integer held
  big-endian in a fixed width) and \<open>id\<close> (32 bytes), and makes the accessors the only
  way to change them. The zero value of the Go array type is
  \<open>zeroPacket\<close>. \<open>setKeyshareSecret\<close> returns an error in the source; here it
  fails for a secret that is negative or does not fit the field, whose width in bytes
  (left open by the specification) is \<open>secretLen\<close>.
\<close>

record unencryptedKeysharePacket =
  pin_hash :: "byte list"
  secret :: int
  packet_id :: "byte list"

definition zeroPacket :: unencryptedKeysharePacket where
  "zeroPacket = \<lparr>pin_hash = replicate 64 0, secret = 0, packet_id = replicate 32 0\<rparr>"

definition secretLen :: nat where
  "secretLen = 64"

definition pin :: "unencryptedKeysharePacket \<Rightarrow> byte list" where
  "pin p = pin_hash p"

definition setPin :: "unencryptedKeysharePacket \<Rightarrow> byte list \<Rightarrow> unencryptedKeysharePacket" where
  "setPin p pw = p\<lparr>pin_hash := pw\<rparr>"

definition keyshareSecret :: "unencryptedKeysharePacket \<Rightarrow> int" where
  "keyshareSecret p = secret p"

definition setKeyshareSecret ::
  "unencryptedKeysharePacket \<Rightarrow> int \<Rightarrow> error + unencryptedKeysharePacket" where
  "setKeyshareSecret p val =
     (if val < 0 \<or> 256 ^ secretLen \<le> val then Inl ErrInternal
      else Inr (p\<lparr>secret := val\<rparr>))"

definition id_packet :: "unencryptedKeysharePacket \<Rightarrow> byte list" where
  "id_packet p = packet_id p"

definition setID :: "unencryptedKeysharePacket \<Rightarrow> byte list \<Rightarrow> unencryptedKeysharePacket" where
  "setID p i = p\<lparr>packet_id := i\<rparr>"

text \<open>
  Modelled from the spec: the type \<open>EncryptedKeysharePacket\<close> and the methods
  \<open>encryptPacket\<close> and \<open>decryptPacket\<close> are in the same missing file. The
  specification describes authenticated encryption under a key selected by a key
  version: the encrypted packet is the version, a nonce and the AEAD ciphertext;
  encryption uses the current version and a nonce drawn from the random source (a
  failed draw aborts); decryption reads the version, looks the key up and
  authenticates, and every failure is the one error \<open>InvalidPacket\<close>. The AEAD is
  symbolic: \<open>Sealed k n p\<close> is the ciphertext and tag of the packet \<open>p\<close> under the key
  \<open>k\<close> and the nonce \<open>n\<close>, and opens under this key and nonce only; \<open>Forged bs\<close> is
  any other byte string and never opens.
\<close>

type_synonym key_version = byte

datatype aead_key = AeadKey nat

datatype aead_ciphertext =
    Sealed aead_key "byte list" unencryptedKeysharePacket
  | Forged "byte list"

record EncryptedKeysharePacket =
  version :: key_version
  nonce :: "byte list"
  ciphertext :: aead_ciphertext

section \<open>The engine state\<close>

text \<open>
  An Idemix public-key identifier: the issuer's name and a counter.
\<close>

datatype PublicKeyIdentifier = PublicKeyIdentifier (Issuer: string) (Counter: nat)

datatype rsa_private_key = RSAPrivateKey nat

datatype rsa_public_key = PublicKey rsa_private_key

text \<open>
  Modelled from the spec: the struct \<open>Core\<close> is declared outside the sources. Its
  fields \<open>signKey\<close>, \<open>signKeyID\<close>, \<open>trustedKeys\<close> and \<open>commitmentData\<close> are the ones
  the source reads and writes (\<open>commitmentMutex\<close> only serialises the accesses to
  \<open>commitmentData\<close>, so each of them is one atomic step of the model). The AEAD
  keys are, as the specification has them, a set of keys with versions, one of them
  marked current: \<open>aeadCurrent\<close> is the current version with its key, \<open>aeadOld\<close> the
  other versions. \<open>'pk\<close> is gabi's public key, \<open>'cs\<close> its commit secret.
\<close>

record ('pk, 'cs) Core =
  signKey :: rsa_private_key
  signKeyID :: int
  trustedKeys :: "PublicKeyIdentifier \<rightharpoonup> 'pk"
  commitmentData :: "64 word \<rightharpoonup> 'cs"
  aeadCurrent :: "key_version \<times> aead_key"
  aeadOld :: "key_version \<rightharpoonup> aead_key"

text \<open>
  Modelled from the spec: the key lookup of the cipher, over the current version and
  the other versions of the engine.
\<close>

definition aeadKeys :: "('pk, 'cs) Core \<Rightarrow> key_version \<rightharpoonup> aead_key" where
  "aeadKeys c = (aeadOld c)(fst (aeadCurrent c) \<mapsto> snd (aeadCurrent c))"

text \<open>
  Modelled from the spec: \<open>encryptPacket\<close> (missing from the sources) seals the
  packet under the current version with the nonce drawn; \<open>nonceDraw\<close> is the outcome
  of that draw, and a failed draw is the error returned.
\<close>

definition encryptPacket ::
  "('pk, 'cs) Core \<Rightarrow> unencryptedKeysharePacket \<Rightarrow> error + byte list
     \<Rightarrow> error + EncryptedKeysharePacket" where
  "encryptPacket c p nonceDraw =
     (case nonceDraw of
        Inl e \<Rightarrow> Inl e
      | Inr n \<Rightarrow>
          Inr \<lparr>version = fst (aeadCurrent c), nonce = n,
               ciphertext = Sealed (snd (aeadCurrent c)) n p\<rparr>)"

text \<open>
  Modelled from the spec: \<open>decryptPacket\<close> (missing from the sources) reads the
  version, looks the key up and opens the ciphertext; an unknown version and a
  ciphertext that does not open under the key and the nonce are \<open>ErrInvalidPacket\<close>.
\<close>

definition decryptPacket ::
  "('pk, 'cs) Core \<Rightarrow> EncryptedKeysharePacket \<Rightarrow> error + unencryptedKeysharePacket" where
  "decryptPacket c ep =
     (case aeadKeys c (version ep) of
        None \<Rightarrow> Inl ErrInvalidPacket
      | Some key \<Rightarrow>
          (case ciphertext ep of
             Sealed k n p \<Rightarrow>
               if k = key \<and> n = nonce ep then Inr p else Inl ErrInvalidPacket
           | Forged bs \<Rightarrow> Inl ErrInvalidPacket))"

section \<open>JSON Web Tokens\<close>

text \<open>
  The library \<open>github.com/dgrijalva/jwt-go\<close>, as far as the source uses it. A claim
  value is a JSON value as the token string carries it: a string, a whole number, the
  Idemix response object of a response token, or anything else. \<open>ClaimString s\<close> is
  the JSON string whose text has the UTF-8 bytes \<open>s\<close>; \<open>ClaimNumber n\<close> is the JSON
  number \<open>n\<close> itself, as written in the token, before any conversion. Numbers with a
  fraction are not modelled.
\<close>

datatype 'r claim_value =
    ClaimString string
  | ClaimNumber int
  | ClaimProofP 'r
  | ClaimOther

type_synonym 'r MapClaims = "string \<rightharpoonup> 'r claim_value"

text \<open>
  A signing method is known by its \<open>alg\<close> name; \<open>GetSigningMethod\<close> finds the
  registered methods and no others.
\<close>

datatype SigningMethod = SigningMethod string

definition SigningMethodRS256 :: SigningMethod where
  "SigningMethodRS256 = SigningMethod ''RS256''"

definition signingMethods :: "string list" where
  "signingMethods =
     [''RS256'', ''RS384'', ''RS512'', ''PS256'', ''PS384'', ''PS512'',
      ''ES256'', ''ES384'', ''ES512'', ''HS256'', ''HS384'', ''HS512'', ''none'']"

definition GetSigningMethod :: "string \<Rightarrow> SigningMethod option" where
  "GetSigningMethod alg =
     (if alg \<in> set signingMethods then Some (SigningMethod alg) else None)"

text \<open>The parsed token \<open>jwt.Token\<close>: its method, its \<open>kid\<close> header and its claims.\<close>

record 'r Token =
  Method :: SigningMethod
  Header_kid :: "int option"
  Claims :: "'r MapClaims"

text \<open>
  A token string. \<open>NotAToken\<close> is a string that is not three base64url segments
  holding a JSON header and a JSON claims object. \<open>Compact alg kid claims sig\<close> is
  one that is: \<open>alg\<close> is the header's \<open>alg\<close> when it is a string, \<open>kid\<close> the
  header's key identifier, \<open>claims\<close> the claims object. The library decodes the
  claims object of such a string, so each number in it is one that \<open>float64\<close> holds
  (\<open>decodes\<close>, defined below); a string with a number beyond that range is one of those
  that do not decode. Signatures are symbolic:
  \<open>sig = Some k\<close> says that the third segment is an RS256 signature of the first two
  made with the private key \<open>k\<close>, which verifies under the public key of \<open>k\<close> and
  under no other; \<open>sig = None\<close> that it is no RS256 signature of them.
\<close>

datatype 'r jwt_string =
    NotAToken
  | Compact "string option" "int option" "'r MapClaims" "rsa_private_key option"

text \<open>
  The length of a natural number in bits, 0 for 0 (\<open>bits.Len\<close>, and
  \<open>big.Int.BitLen\<close> on an absolute value).
\<close>

fun bitlen :: "nat \<Rightarrow> nat" where
  "bitlen n = (if n = 0 then 0 else Suc (bitlen (n div 2)))"

text \<open>
  What the library makes of a JSON number. \<open>encoding/json\<close> decodes it into a
  \<open>float64\<close> with \<open>strconv.ParseFloat\<close>: the nearest number with a mantissa of 53
  bits, a tie going to the even mantissa, and an error, with which the claims do not
  decode, when that number is beyond the range of \<open>float64\<close>. The methods of
  \<open>MapClaims\<close> then convert the \<open>float64\<close> with \<open>int64(exp)\<close>.

  \<open>roundFloat64 m\<close> is the \<open>float64\<close> nearest to the whole number \<open>m\<close>, and
  \<open>decodes n\<close> says that the one nearest to \<open>n\<close> is in range (below \<open>2^1024\<close> in
  magnitude), \<open>valueDecodes v\<close> that the claim value \<open>v\<close> is not a number out of
  range. \<open>toInt64 n\<close> is \<open>int64(float64(n))\<close>: the rounded number when an
  \<open>int64\<close> holds it and the least \<open>int64\<close> when none does, which is what the
  conversion instruction of amd64 gives (Go leaves the result of a conversion that
  does not fit to the implementation). A whole number of magnitude up to \<open>2^53\<close>
  converts to itself.
\<close>

definition roundFloat64 :: "nat \<Rightarrow> nat" where
  "roundFloat64 m =
     (if m < 2 ^ 53 then m
      else
        (let k = bitlen m - 53;
             q = m div 2 ^ k;
             r = m mod 2 ^ k;
             half = 2 ^ (k - 1)
         in (if half < r \<or> (r = half \<and> odd q) then q + 1 else q) * 2 ^ k))"


definition toInt64 :: "int \<Rightarrow> int" where
  "toInt64 n =
     (let v = sgn n * int (roundFloat64 (nat \<bar>n\<bar>))
      in if - (2 ^ 63) \<le> v \<and> v < 2 ^ 63 then v else - (2 ^ 63))"


text \<open>
  The helpers of the library's \<open>claims.go\<close> and the methods of \<open>MapClaims\<close>:
  a claim that is zero counts as absent; \<open>exp\<close> holds while \<open>now \<le> exp\<close>, \<open>iat\<close> and
  \<open>nbf\<close> hold once \<open>now \<ge> iat\<close> and \<open>now \<ge> nbf\<close>; a claim that is missing or not
  a number passes exactly when it is not required. \<open>MapClaims_Valid\<close> is the method
  \<open>Valid\<close> (\<open>True\<close> for a \<open>nil\<close> error): the three checks, none of them required, at
  the time \<open>now\<close> that the library reads from the clock. In the library:
  \<^verbatim>\<open>
  func verifyExp(exp int64, now int64, required bool) bool {
      if exp == 0 { return !required }
      return now <= exp
  }
  func verifyIat(iat int64, now int64, required bool) bool {
      if iat == 0 { return !required }
      return now >= iat
  }
  func (m MapClaims) VerifyExpiresAt(cmp int64, req bool) bool {
      switch exp := m["exp"].(type) {
      case float64:     return verifyExp(int64(exp), cmp, req)
      case json.Number: v, _ := exp.Int64(); return verifyExp(v, cmp, req)
      }
      return req == false
  }
  \<close>
  (\<open>verifyNbf\<close> is \<open>verifyIat\<close> for \<open>nbf\<close>, and \<open>VerifyIssuedAt\<close> and
  \<open>VerifyNotBefore\<close> read \<open>iat\<close> and \<open>nbf\<close> as \<open>VerifyExpiresAt\<close> reads \<open>exp\<close>.)
  A number of the claims has been decoded into a \<open>float64\<close>, so the first case is the
  one that applies, and the number compared is \<open>toInt64\<close> of the number in the token.
\<close>

definition verifyExp :: "int \<Rightarrow> int \<Rightarrow> bool \<Rightarrow> bool" where
  "verifyExp e now required = (if e = 0 then \<not> required else now \<le> e)"

definition verifyIat :: "int \<Rightarrow> int \<Rightarrow> bool \<Rightarrow> bool" where
  "verifyIat iat now required = (if iat = 0 then \<not> required else now \<ge> iat)"

definition verifyNbf :: "int \<Rightarrow> int \<Rightarrow> bool \<Rightarrow> bool" where
  "verifyNbf nbf now required = (if nbf = 0 then \<not> required else now \<ge> nbf)"

definition VerifyExpiresAt :: "'r MapClaims \<Rightarrow> int \<Rightarrow> bool \<Rightarrow> bool" where
  "VerifyExpiresAt m cmp req =
     (case m ''exp'' of
        Some (ClaimNumber e) \<Rightarrow> verifyExp (toInt64 e) cmp req
      | _ \<Rightarrow> req = False)"

definition VerifyIssuedAt :: "'r MapClaims \<Rightarrow> int \<Rightarrow> bool \<Rightarrow> bool" where
  "VerifyIssuedAt m cmp req =
     (case m ''iat'' of
        Some (ClaimNumber iat) \<Rightarrow> verifyIat (toInt64 iat) cmp req
      | _ \<Rightarrow> req = False)"

definition VerifyNotBefore :: "'r MapClaims \<Rightarrow> int \<Rightarrow> bool \<Rightarrow> bool" where
  "VerifyNotBefore m cmp req =
     (case m ''nbf'' of
        Some (ClaimNumber nbf) \<Rightarrow> verifyNbf (toInt64 nbf) cmp req
      | _ \<Rightarrow> req = False)"

definition MapClaims_Valid :: "'r MapClaims \<Rightarrow> int \<Rightarrow> bool" where
  "MapClaims_Valid m now =
     (VerifyExpiresAt m now False \<and> VerifyIssuedAt m now False \<and> VerifyNotBefore m now False)"

text \<open>
  \<open>Verify\<close> of a signing method on a symbolic signature and the RSA public key that
  the key function of \<open>verifyAccess\<close> hands out: only RS256 verifies with it.
\<close>

definition Verify :: "SigningMethod \<Rightarrow> rsa_private_key option \<Rightarrow> rsa_public_key \<Rightarrow> bool" where
  "Verify m sig key =
     (m = SigningMethodRS256 \<and> (case sig of None \<Rightarrow> False | Some k \<Rightarrow> key = PublicKey k))"

text \<open>
  \<open>jwt.Parse\<close>: split and decode the string, look the method up by the header's
  \<open>alg\<close>, ask the key function for the key, validate the claims at the time \<open>now\<close>,
  verify the signature. \<open>None\<close> stands for every non-\<open>nil\<close> error.
\<close>

definition jwt_Parse ::
  "'r jwt_string \<Rightarrow> ('r Token \<Rightarrow> error + rsa_public_key) \<Rightarrow> int \<Rightarrow> 'r Token option" where
  "jwt_Parse tokenString keyFunc now =
     (case tokenString of
        NotAToken \<Rightarrow> None
      | Compact alg kid claims sig \<Rightarrow>
          (case alg of
             None \<Rightarrow> None
           | Some a \<Rightarrow>
               (case GetSigningMethod a of
                  None \<Rightarrow> None
                | Some method \<Rightarrow>
                    (let token = \<lparr>Method = method, Header_kid = kid, Claims = claims\<rparr> in
                     case keyFunc token of
                       Inl e \<Rightarrow> None
                     | Inr key \<Rightarrow>
                         if \<not> MapClaims_Valid claims now then None
                         else if \<not> Verify method sig key then None
                         else Some token))))"

text \<open>
  How \<open>encoding/json\<close> writes a Go string, which is any sequence of bytes, as a JSON
  string. Its encoder walks the bytes with \<open>utf8.DecodeRuneInString\<close>: a byte below
  \<open>0x80\<close> and a well-formed sequence of two, three or four bytes stand for
  themselves (some of them escaped, which does not change the text), and every byte
  at which no well-formed sequence starts is written as the escape of \<open>U+FFFD\<close>, the
  replacement character, whose UTF-8 bytes are \<open>EF BF BD\<close>:
  \<^verbatim>\<open>
      c, size := utf8.DecodeRuneInString(s[i:])
      if c == utf8.RuneError && size == 1 { e.WriteString(`\ufffd`); i += size; continue }
  \<close>
  \<open>runeSize s\<close> is the size of the well-formed sequence at the head of \<open>s\<close>, and 0
  when there is none (where \<open>DecodeRuneInString\<close> reports \<open>RuneError\<close> with size 1).
  The well-formed sequences are those of the tables of \<open>unicode/utf8\<close>: no overlong
  forms, no surrogates, nothing above \<open>U+10FFFF\<close>. \<open>jsonText s\<close> is the text of the
  JSON string written for \<open>s\<close>, in UTF-8, and \<open>ValidString\<close> is \<open>utf8.ValidString\<close>.
\<close>

definition inRange :: "nat \<Rightarrow> nat \<Rightarrow> char \<Rightarrow> bool" where
  "inRange lo hi ch = (lo \<le> of_char ch \<and> (of_char ch :: nat) \<le> hi)"

definition runeSize :: "string \<Rightarrow> nat" where
  "runeSize s =
     (case s of
        [] \<Rightarrow> 0
      | c0 # s1 \<Rightarrow>
          (let b0 = (of_char c0 :: nat) in
           if b0 < 0x80 then 1
           else if 0xC2 \<le> b0 \<and> b0 \<le> 0xDF then
             (case s1 of
                c1 # s2 \<Rightarrow> if inRange 0x80 0xBF c1 then 2 else 0
              | _ \<Rightarrow> 0)
           else if 0xE0 \<le> b0 \<and> b0 \<le> 0xEF then
             (case s1 of
                c1 # c2 # s3 \<Rightarrow>
                  if inRange (if b0 = 0xE0 then 0xA0 else 0x80)
                       (if b0 = 0xED then 0x9F else 0xBF) c1
                     \<and> inRange 0x80 0xBF c2
                  then 3 else 0
              | _ \<Rightarrow> 0)
           else if 0xF0 \<le> b0 \<and> b0 \<le> 0xF4 then
             (case s1 of
                c1 # c2 # c3 # s4 \<Rightarrow>
                  if inRange (if b0 = 0xF0 then 0x90 else 0x80)
                       (if b0 = 0xF4 then 0x8F else 0xBF) c1
                     \<and> inRange 0x80 0xBF c2 \<and> inRange 0x80 0xBF c3
                  then 4 else 0
              | _ \<Rightarrow> 0)
           else 0))"

function jsonText :: "string \<Rightarrow> string" where
  "jsonText s =
     (if s = [] then []
      else if runeSize s = 0 then CHR 0xEF # CHR 0xBF # CHR 0xBD # jsonText (tl s)
      else take (runeSize s) s @ jsonText (drop (runeSize s) s))"
  by pat_completeness auto
termination
  by (relation "measure length") auto

function ValidString :: "string \<Rightarrow> bool" where
  "ValidString s =
     (if s = [] then True
      else if runeSize s = 0 then False
      else ValidString (drop (runeSize s) s))"
  by pat_completeness auto
termination
  by (relation "measure length") auto

text \<open>
  \<open>jwt.NewWithClaims\<close> and \<open>SignedString\<close>. \<open>SignedString\<close> writes the claims with
  \<open>json.Marshal\<close>: a string claim as the JSON string \<open>jsonText\<close> of it, an \<open>int64\<close>
  as the number it is. Signing with RS256 and an RSA private key yields the compact
  string whose signature is the one of that key; the source signs with no other
  method.
\<close>

fun marshalValue :: "'r claim_value \<Rightarrow> 'r claim_value" where
  "marshalValue (ClaimString s) = ClaimString (jsonText s)"
| "marshalValue (ClaimNumber n) = ClaimNumber n"
| "marshalValue (ClaimProofP r) = ClaimProofP r"
| "marshalValue ClaimOther = ClaimOther"

definition Marshal :: "'r MapClaims \<Rightarrow> 'r MapClaims" where
  "Marshal claims = (\<lambda>k. map_option marshalValue (claims k))"

definition NewWithClaims :: "SigningMethod \<Rightarrow> 'r MapClaims \<Rightarrow> 'r Token" where
  "NewWithClaims method claims = \<lparr>Method = method, Header_kid = None, Claims = claims\<rparr>"

definition SignedString :: "'r Token \<Rightarrow> rsa_private_key \<Rightarrow> error + 'r jwt_string" where
  "SignedString token key =
     (case Method token of
        SigningMethod alg \<Rightarrow>
          if Method token = SigningMethodRS256
          then Inr (Compact (Some alg) (Header_kid token) (Marshal (Claims token)) (Some key))
          else Inl ErrInternal)"

section \<open>The operations of the core\<close>

text \<open>
  \<open>GenerateKeyshareSecret\<close>. \<open>newSecret\<close> is the outcome of
  \<open>gabi.NewKeyshareSecret()\<close>, \<open>idDraw\<close> the one of \<open>rand.Read(id[:])\<close>, \<open>nonceDraw\<close>
  the draw of the cipher's nonce.
\<close>

definition GenerateKeyshareSecret ::
  "('pk, 'cs) Core \<Rightarrow> string \<Rightarrow> error + int \<Rightarrow> error + byte list \<Rightarrow> error + byte list
     \<Rightarrow> error + EncryptedKeysharePacket" where
  "GenerateKeyshareSecret c pinRaw newSecret idDraw nonceDraw =
     (case padPin pinRaw of
        Inl e \<Rightarrow> Inl e
      | Inr pinPadded \<Rightarrow>
     (case newSecret of
        Inl e \<Rightarrow> Inl e
      | Inr keyshareSecretNew \<Rightarrow>
     (case idDraw of
        Inl e \<Rightarrow> Inl e
      | Inr i \<Rightarrow>
     (case setKeyshareSecret (setPin zeroPacket pinPadded) keyshareSecretNew of
        Inl e \<Rightarrow> Inl e
      | Inr p \<Rightarrow> encryptPacket c (setID p i) nonceDraw))))"

definition DangerousBuildKeyshareSecret ::
  "('pk, 'cs) Core \<Rightarrow> string \<Rightarrow> int \<Rightarrow> error + byte list \<Rightarrow> error + byte list
     \<Rightarrow> error + EncryptedKeysharePacket" where
  "DangerousBuildKeyshareSecret c pinRaw secretGiven idDraw nonceDraw =
     (case padPin pinRaw of
        Inl e \<Rightarrow> Inl e
      | Inr pinPadded \<Rightarrow>
     (case idDraw of
        Inl e \<Rightarrow> Inl e
      | Inr i \<Rightarrow>
     (case setKeyshareSecret (setPin zeroPacket pinPadded) secretGiven of
        Inl e \<Rightarrow> Inl e
      | Inr p \<Rightarrow> encryptPacket c (setID p i) nonceDraw)))"

text \<open>
  \<open>ValidatePin\<close>. The source reads the clock twice while it builds the claims:
  \<open>now_iat\<close> is \<open>time.Now().Unix()\<close> of the \<open>iat\<close> claim, \<open>now_exp\<close> the Unix time
  of the second \<open>time.Now()\<close>, to which three minutes are added for \<open>exp\<close>:
  \<^verbatim>\<open>
      "iat":      time.Now().Unix(),
      "exp":      time.Now().Add(3 * time.Minute).Unix(),
  \<close>
\<close>

definition ValidatePin ::
  "('pk, 'cs) Core \<Rightarrow> EncryptedKeysharePacket \<Rightarrow> string \<Rightarrow> string \<Rightarrow> int \<Rightarrow> int
     \<Rightarrow> error + 'r jwt_string" where
  "ValidatePin c ep pinRaw userID now_iat now_exp =
     (case padPin pinRaw of
        Inl e \<Rightarrow> Inl e
      | Inr paddedPin \<Rightarrow>
     (case decryptPacket c ep of
        Inl e \<Rightarrow> Inl e
      | Inr p \<Rightarrow>
          if \<not> hmac_Equal (pin p) paddedPin then Inl ErrInvalidPin
          else
            (let token = NewWithClaims SigningMethodRS256
                   [''iss'' \<mapsto> ClaimString ''keyshare_server'',
                    ''sub'' \<mapsto> ClaimString ''auth_tok'',
                    ''iat'' \<mapsto> ClaimNumber now_iat,
                    ''exp'' \<mapsto> ClaimNumber (now_exp + 180),
                    ''user_id'' \<mapsto> ClaimString userID,
                    ''token_id'' \<mapsto> ClaimString (EncodeToString (id_packet p))]
             in SignedString (token\<lparr>Header_kid := Some (signKeyID c)\<rparr>) (signKey c))))"

text \<open>
  \<open>verifyAccess\<close>. The key function refuses every method but RS256. The clock is
  read three times: by \<open>jwt.Parse\<close> when it validates the claims (\<open>now1\<close>), by
  \<open>claims.Valid()\<close> (\<open>now2\<close>) and by \<open>time.Now().Unix()\<close> for \<open>VerifyExpiresAt\<close>
  (\<open>now3\<close>). The claims of a parsed token are always a \<open>MapClaims\<close>.
\<close>

definition keyFunc :: "('pk, 'cs) Core \<Rightarrow> 'r Token \<Rightarrow> error + rsa_public_key" where
  "keyFunc c token =
     (if Method token \<noteq> SigningMethodRS256 then Inl ErrInvalidJWT
      else Inr (PublicKey (signKey c)))"

definition verifyAccess ::
  "('pk, 'cs) Core \<Rightarrow> EncryptedKeysharePacket \<Rightarrow> 'r jwt_string \<Rightarrow> int \<Rightarrow> int \<Rightarrow> int
     \<Rightarrow> error + unencryptedKeysharePacket" where
  "verifyAccess c ep jwtToken now1 now2 now3 =
     (case jwt_Parse jwtToken (keyFunc c) now1 of
        None \<Rightarrow> Inl ErrInvalidJWT
      | Some token \<Rightarrow>
          if \<not> MapClaims_Valid (Claims token) now2 then Inl ErrInvalidJWT
          else if \<not> VerifyExpiresAt (Claims token) now3 True then Inl ErrInvalidJWT
          else
            (case Claims token ''token_id'' of
               None \<Rightarrow> Inl ErrInvalidJWT
             | Some v \<Rightarrow>
                 (case v of
                    ClaimString tokenIDB64 \<Rightarrow>
                      (case DecodeString tokenIDB64 of
                         None \<Rightarrow> Inl ErrInvalidJWT
                       | Some tokenID \<Rightarrow>
                           (case decryptPacket c ep of
                              Inl e \<Rightarrow> Inl e
                            | Inr p \<Rightarrow>
                                if \<not> hmac_Equal (id_packet p) tokenID then Inl ErrInvalidJWT
                                else Inr p))
                  | _ \<Rightarrow> Inl ErrInvalidJWT)))"

text \<open>\<open>ValidateJWT\<close> returns the error of \<open>verifyAccess\<close>; \<open>None\<close> is \<open>nil\<close>.\<close>

definition ValidateJWT ::
  "('pk, 'cs) Core \<Rightarrow> EncryptedKeysharePacket \<Rightarrow> 'r jwt_string \<Rightarrow> int \<Rightarrow> int \<Rightarrow> int
     \<Rightarrow> error option" where
  "ValidateJWT c ep jwt now1 now2 now3 =
     (case verifyAccess c ep jwt now1 now2 now3 of Inl e \<Rightarrow> Some e | Inr p \<Rightarrow> None)"

definition ChangePin ::
  "('pk, 'cs) Core \<Rightarrow> EncryptedKeysharePacket \<Rightarrow> string \<Rightarrow> string
     \<Rightarrow> error + byte list \<Rightarrow> error + byte list \<Rightarrow> error + EncryptedKeysharePacket" where
  "ChangePin c ep oldpinRaw newpinRaw idDraw nonceDraw =
     (case padPin oldpinRaw of
        Inl e \<Rightarrow> Inl e
      | Inr oldpin \<Rightarrow>
     (case padPin newpinRaw of
        Inl e \<Rightarrow> Inl e
      | Inr newpin \<Rightarrow>
     (case decryptPacket c ep of
        Inl e \<Rightarrow> Inl e
      | Inr p \<Rightarrow>
          if \<not> hmac_Equal (pin p) oldpin then Inl ErrInvalidPin
          else
            (case idDraw of
               Inl e \<Rightarrow> Inl e
             | Inr i \<Rightarrow> encryptPacket c (setID (setPin p newpin) i) nonceDraw))))"

text \<open>
  \<open>GenerateCommitments\<close>. The loop over \<open>keyIDs\<close> is \<open>lookupKeys\<close>, with the key
  list built so far as its accumulator. \<open>newCommitments\<close> is
  \<open>gabi.NewKeyshareCommitments\<close> with its randomness fixed, \<open>commitIDDraw\<close> the
  outcome of reading eight random bytes as a little-endian \<open>uint64\<close>. The function
  returns its results together with the core, whose commitment map it has updated.
\<close>

fun lookupKeys ::
  "(PublicKeyIdentifier \<rightharpoonup> 'pk) \<Rightarrow> PublicKeyIdentifier list \<Rightarrow> 'pk list \<Rightarrow> error + 'pk list" where
  "lookupKeys keys [] keyList = Inr keyList"
| "lookupKeys keys (keyID # keyIDs) keyList =
     (case keys keyID of
        None \<Rightarrow> Inl ErrKeyNotFound
      | Some key \<Rightarrow> lookupKeys keys keyIDs (keyList @ [key]))"

definition GenerateCommitments ::
  "('pk, 'cs) Core \<Rightarrow> EncryptedKeysharePacket \<Rightarrow> 'r jwt_string \<Rightarrow> PublicKeyIdentifier list
     \<Rightarrow> int \<Rightarrow> int \<Rightarrow> int \<Rightarrow> (int \<Rightarrow> 'pk list \<Rightarrow> error + 'cs \<times> 'cm list) \<Rightarrow> error + 64 word
     \<Rightarrow> (error + 'cm list \<times> 64 word) \<times> ('pk, 'cs) Core" where
  "GenerateCommitments c ep accessToken keyIDs now1 now2 now3 newCommitments commitIDDraw =
     (case lookupKeys (trustedKeys c) keyIDs [] of
        Inl e \<Rightarrow> (Inl e, c)
      | Inr keyList \<Rightarrow>
     (case verifyAccess c ep accessToken now1 now2 now3 of
        Inl e \<Rightarrow> (Inl e, c)
      | Inr p \<Rightarrow>
     (case newCommitments (keyshareSecret p) keyList of
        Inl e \<Rightarrow> (Inl e, c)
      | Inr (commitSecret, commitments) \<Rightarrow>
     (case commitIDDraw of
        Inl e \<Rightarrow> (Inl e, c)
      | Inr commitID \<Rightarrow>
          (Inr (commitments, commitID),
           c\<lparr>commitmentData := (commitmentData c)(commitID \<mapsto> commitSecret)\<rparr>)))))"

text \<open>
  \<open>big.Int.BitLen\<close>: the length of the absolute value in bits, 0 for 0.
  \<open>Lh\<close> is \<open>gabi.DefaultSystemParameters[1024].Lh\<close>, which is 256.
\<close>

definition BitLen :: "int \<Rightarrow> nat" where
  "BitLen x = bitlen (nat \<bar>x\<bar>)"

definition Lh :: nat where
  "Lh = 256"

text \<open>
  \<open>GenerateResponse\<close>. \<open>keyshareResponse\<close> is \<open>gabi.KeyshareResponse\<close>,
  \<open>now_iat\<close> the clock read of the response token's \<open>iat\<close>. Under the lock the
  source reads \<open>commitmentData[commitID]\<close> and deletes the entry, whether there was
  one or not, and only then looks at what it read.
\<close>

definition GenerateResponse ::
  "('pk, 'cs) Core \<Rightarrow> EncryptedKeysharePacket \<Rightarrow> 'r jwt_string \<Rightarrow> 64 word \<Rightarrow> int
     \<Rightarrow> PublicKeyIdentifier \<Rightarrow> int \<Rightarrow> int \<Rightarrow> int \<Rightarrow> (int \<Rightarrow> 'cs \<Rightarrow> int \<Rightarrow> 'pk \<Rightarrow> 'r) \<Rightarrow> int
     \<Rightarrow> (error + 'r jwt_string) \<times> ('pk, 'cs) Core" where
  "GenerateResponse c ep accessToken commitID challenge keyID now1 now2 now3
       keyshareResponse now_iat =
     (if BitLen challenge > Lh \<or> challenge < 0 then (Inl ErrInvalidChallenge, c)
      else
     (case trustedKeys c keyID of
        None \<Rightarrow> (Inl ErrKeyNotFound, c)
      | Some key \<Rightarrow>
     (case verifyAccess c ep accessToken now1 now2 now3 of
        Inl e \<Rightarrow> (Inl e, c)
      | Inr p \<Rightarrow>
          (let c' = c\<lparr>commitmentData := (commitmentData c)(commitID := None)\<rparr> in
           case commitmentData c commitID of
             None \<Rightarrow> (Inl ErrUnknownCommit, c')
           | Some commit \<Rightarrow>
               (let token = NewWithClaims SigningMethodRS256
                      [''ProofP'' \<mapsto>
                         ClaimProofP (keyshareResponse (keyshareSecret p) commit challenge key),
                       ''iat'' \<mapsto> ClaimNumber now_iat,
                       ''sub'' \<mapsto> ClaimString ''ProofP'',
                       ''iss'' \<mapsto> ClaimString ''keyshare_server'']
                in (SignedString (token\<lparr>Header_kid := Some (signKeyID c)\<rparr>) (signKey c), c'))))))"

text \<open>
  The public methods of \<open>Core\<close> as calls on the engine state. A call carries the
  arguments of the method and the values it reads from its surroundings; the engine
  answers and moves to its next state. The five methods that the source never lets
  write to the core hand the state on as it is.
\<close>

datatype ('pk, 'cs, 'cm, 'r) call =
    CallGenerateKeyshareSecret string "error + int" "error + byte list" "error + byte list"
  | CallDangerousBuildKeyshareSecret string int "error + byte list" "error + byte list"
  | CallValidatePin EncryptedKeysharePacket string string int int
  | CallValidateJWT EncryptedKeysharePacket "'r jwt_string" int int int
  | CallChangePin EncryptedKeysharePacket string string "error + byte list" "error + byte list"
  | CallGenerateCommitments EncryptedKeysharePacket "'r jwt_string" "PublicKeyIdentifier list"
      int int int "int \<Rightarrow> 'pk list \<Rightarrow> error + 'cs \<times> 'cm list" "error + 64 word"
  | CallGenerateResponse EncryptedKeysharePacket "'r jwt_string" "64 word" int PublicKeyIdentifier
      int int int "int \<Rightarrow> 'cs \<Rightarrow> int \<Rightarrow> 'pk \<Rightarrow> 'r" int

datatype ('cm, 'r) reply =
    ReplyPacket "error + EncryptedKeysharePacket"
  | ReplyToken "error + 'r jwt_string"
  | ReplyError "error option"
  | ReplyCommitments "error + 'cm list \<times> 64 word"

fun engine ::
  "('pk, 'cs) Core \<Rightarrow> ('pk, 'cs, 'cm, 'r) call \<Rightarrow> ('cm, 'r) reply \<times> ('pk, 'cs) Core" where
  "engine c (CallGenerateKeyshareSecret pinRaw newSecret idDraw nonceDraw) =
     (ReplyPacket (GenerateKeyshareSecret c pinRaw newSecret idDraw nonceDraw), c)"
| "engine c (CallDangerousBuildKeyshareSecret pinRaw secretGiven idDraw nonceDraw) =
     (ReplyPacket (DangerousBuildKeyshareSecret c pinRaw secretGiven idDraw nonceDraw), c)"
| "engine c (CallValidatePin ep pinRaw userID now_iat now_exp) =
     (ReplyToken (ValidatePin c ep pinRaw userID now_iat now_exp), c)"
| "engine c (CallValidateJWT ep jwt now1 now2 now3) =
     (ReplyError (ValidateJWT c ep jwt now1 now2 now3), c)"
| "engine c (CallChangePin ep oldpinRaw newpinRaw idDraw nonceDraw) =
     (ReplyPacket (ChangePin c ep oldpinRaw newpinRaw idDraw nonceDraw), c)"
| "engine c (CallGenerateCommitments ep accessToken keyIDs now1 now2 now3 newCommitments
       commitIDDraw) =
     (case GenerateCommitments c ep accessToken keyIDs now1 now2 now3 newCommitments commitIDDraw of
        (r, c') \<Rightarrow> (ReplyCommitments r, c'))"
| "engine c (CallGenerateResponse ep accessToken commitID challenge keyID now1 now2 now3
       keyshareResponse now_iat) =
     (case GenerateResponse c ep accessToken commitID challenge keyID now1 now2 now3
             keyshareResponse now_iat of
        (r, c') \<Rightarrow> (ReplyToken r, c'))"

section \<open>Auxiliary notions and a concrete engine\<close>

text \<open>
  \<open>trimPin\<close> removes the zero bytes at the end of a PIN; it is used to say which
  PINs \<open>padPin\<close> identifies.
\<close>

definition trimPin :: "string \<Rightarrow> string" where
  "trimPin s = rev (dropWhile (\<lambda>ch. ch = CHR 0x00) (rev s))"

text \<open>
  An engine, a packet and its encryption, at which the operations are evaluated:
  one signing key, one AEAD key, one trusted Idemix key, one stored commitment. The
  packet holds the PIN \<open>1234\<close>.
\<close>

definition exampleCore :: "(nat, nat) Core" where
  "exampleCore =
     \<lparr>signKey = RSAPrivateKey 11, signKeyID = 1,
      trustedKeys = [PublicKeyIdentifier ''irma-demo.MijnOverheid'' 2 \<mapsto> 7],
      commitmentData = [42 \<mapsto> 99],
      aeadCurrent = (1, AeadKey 5), aeadOld = Map.empty\<rparr>"

definition examplePacket :: unencryptedKeysharePacket where
  "examplePacket =
     \<lparr>pin_hash = bytes_of ''1234'' @ replicate 60 0, secret = 12345,
      packet_id = replicate 32 7\<rparr>"

definition exampleEP :: EncryptedKeysharePacket where
  "exampleEP =
     \<lparr>version = 1, nonce = replicate 12 9,
      ciphertext = Sealed (AeadKey 5) (replicate 12 9) examplePacket\<rparr>"

declare bitlen.simps [simp del]
declare jsonText.simps [simp del]
declare ValidString.simps [simp del]

section \<open>Base64 decodes what it encodes\<close>

lemma index_of_nth: "distinct xs \<Longrightarrow> v < length xs \<Longrightarrow> index_of (xs ! v) xs = Some v"
proof (induction xs arbitrary: v)
  case Nil
  then show ?case by simp
next
  case (Cons y ys)
  show ?case
  proof (cases v)
    case 0
    then show ?thesis by simp
  next
    case (Suc w)
    with Cons.prems have "ys ! w \<noteq> y" by auto
    with Suc Cons show ?thesis by simp
  qed
qed

lemma distinct_encodeStd: "distinct encodeStd"
  by (simp add: encodeStd_def)

lemma length_encodeStd: "length encodeStd = 64"
  by (simp add: encodeStd_def)

lemma dec64_enc64: "dec64 (enc64 v) = Some (v mod 64)"
  unfolding dec64_def enc64_def
  by (rule index_of_nth) (simp_all add: distinct_encodeStd length_encodeStd)

lemma enc64_in: "enc64 v \<in> set encodeStd"
  unfolding enc64_def by (rule nth_mem) (simp add: length_encodeStd)

lemma enc64_not_special:
  "enc64 v \<noteq> CHR ''=''" "enc64 v \<noteq> CHR 0x0D" "enc64 v \<noteq> CHR 0x0A"
  using enc64_in [of v] by (auto simp: encodeStd_def)

lemma EncodeToString_chars:
  "ch \<in> set (EncodeToString bs) \<Longrightarrow> ch \<noteq> CHR 0x0D \<and> ch \<noteq> CHR 0x0A"
  by (induction bs rule: EncodeToString.induct) (auto simp: Let_def enc64_not_special)

lemma filter_EncodeToString:
  "filter (\<lambda>ch. ch \<noteq> CHR 0x0D \<and> ch \<noteq> CHR 0x0A) (EncodeToString bs) = EncodeToString bs"
  by (rule filter_True) (use EncodeToString_chars in blast)

lemma unat_byte: "unat (a :: byte) < 256"
  using unsigned_less [of a, where 'a=nat] by simp

lemma sextets:
  fixes val :: nat
  assumes "val < 16777216"
  shows "(val div 262144 mod 64) * 262144 + (val div 4096 mod 64) * 4096
           + (val div 64 mod 64) * 64 + val mod 64 = val"
proof -
  have d2: "val div 4096 = val div 64 div 64" by (simp add: div_mult2_eq)
  have d3: "val div 262144 = val div 64 div 64 div 64" by (simp add: div_mult2_eq)
  have s3: "val div 262144 mod 64 = val div 262144" using assms by simp
  have a: "val = (val div 64) * 64 + val mod 64" by simp
  have b: "val div 64 = (val div 64 div 64) * 64 + val div 64 mod 64" by simp
  have c: "val div 64 div 64 = (val div 64 div 64 div 64) * 64 + val div 64 div 64 mod 64" by simp
  show ?thesis unfolding s3 unfolding d2 d3 using a b c by linarith
qed

lemma byte3:
  fixes a b c :: byte
  defines "val \<equiv> unat a * 65536 + unat b * 256 + unat c"
  shows "(val div 262144 mod 64) * 262144 + (val div 4096 mod 64) * 4096
           + (val div 64 mod 64) * 64 + val mod 64 = val"
proof -
  have "unat a < 256" "unat b < 256" "unat c < 256"
    by (rule unat_byte)+
  then have "val < 16777216" unfolding val_def by linarith
  then show ?thesis by (rule sextets)
qed

lemma byte_wrap: "(256 :: byte) = 0" "(65536 :: byte) = 0"
  by simp_all

lemma undo3:
  fixes a b c :: byte
  defines "val \<equiv> unat a * 65536 + unat b * 256 + unat c"
  shows "(of_nat (val div 65536) :: byte) = a"
    and "(of_nat (val div 256) :: byte) = b"
    and "(of_nat val :: byte) = c"
proof -
  have lt: "unat a < 256" "unat b < 256" "unat c < 256"
    by (rule unat_byte)+
  have "val = unat a * 65536 + (unat b * 256 + unat c)" by (simp add: val_def)
  moreover have "unat b * 256 + unat c < 65536" using lt by linarith
  ultimately have "val div 65536 = unat a" by simp
  then show "(of_nat (val div 65536) :: byte) = a" by simp
  have "val = (unat a * 256 + unat b) * 256 + unat c" by (simp add: val_def)
  with lt(3) have "val div 256 = unat a * 256 + unat b" by simp
  then show "(of_nat (val div 256) :: byte) = b" by (simp add: byte_wrap)
  show "(of_nat val :: byte) = c" unfolding val_def by (simp add: byte_wrap)
qed

lemma decodeQuanta_full:
  assumes "dec64 c0 = Some v0" "dec64 c1 = Some v1" "dec64 c2 = Some v2" "dec64 c3 = Some v3"
    and "c2 \<noteq> CHR ''=''" "c3 \<noteq> CHR ''=''"
    and "v0 * 262144 + v1 * 4096 + v2 * 64 + v3 = val"
  shows "decodeQuanta (c0 # c1 # c2 # c3 # rest) =
           map_option (\<lambda>bs. of_nat (val div 65536) # of_nat (val div 256) # of_nat val # bs)
             (decodeQuanta rest)"
  using assms(1-6) unfolding assms(7) [symmetric] by (simp add: Let_def)

lemma decodeQuanta_pad1:
  assumes "dec64 c0 = Some v0" "dec64 c1 = Some v1" "dec64 c2 = Some v2"
    and "c2 \<noteq> CHR ''=''"
    and "v0 * 262144 + v1 * 4096 + v2 * 64 = val"
  shows "decodeQuanta [c0, c1, c2, CHR ''=''] = Some [of_nat (val div 65536), of_nat (val div 256)]"
  using assms(1-4) unfolding assms(5) [symmetric] by (simp add: Let_def)

lemma decodeQuanta_pad2:
  assumes "dec64 c0 = Some v0" "dec64 c1 = Some v1"
    and "v0 * 262144 + v1 * 4096 = val"
  shows "decodeQuanta [c0, c1, CHR ''='', CHR ''=''] = Some [of_nat (val div 65536)]"
  using assms(1-2) unfolding assms(3) [symmetric] by simp

lemma quantum3:
  fixes a b c :: byte
  defines "val \<equiv> unat a * 65536 + unat b * 256 + unat c"
  shows "decodeQuanta (enc64 (val div 262144) # enc64 (val div 4096) # enc64 (val div 64) # enc64 val # cs)
         = map_option (\<lambda>bs. a # b # c # bs) (decodeQuanta cs)"
proof -
  have "decodeQuanta (enc64 (val div 262144) # enc64 (val div 4096) # enc64 (val div 64) # enc64 val # cs)
        = map_option (\<lambda>bs. of_nat (val div 65536) # of_nat (val div 256) # of_nat val # bs)
            (decodeQuanta cs)"
    by (rule decodeQuanta_full [OF dec64_enc64 dec64_enc64 dec64_enc64 dec64_enc64
          enc64_not_special(1) enc64_not_special(1) byte3 [of a b c, folded val_def]])
  then show ?thesis
    by (simp only: undo3 [of a b c, folded val_def])
qed

lemma quantum2:
  fixes a b :: byte
  defines "val \<equiv> unat a * 65536 + unat b * 256"
  shows "decodeQuanta [enc64 (val div 262144), enc64 (val div 4096), enc64 (val div 64), CHR ''='']
         = Some [a, b]"
proof -
  have val: "val = unat a * 65536 + unat b * 256 + unat (0 :: byte)" by (simp add: val_def)
  have m: "val mod 64 = 0" unfolding val_def by simp
  have "(val div 262144 mod 64) * 262144 + (val div 4096 mod 64) * 4096 + (val div 64 mod 64) * 64 = val"
    using byte3 [of a b 0, folded val] unfolding m by (simp only: add_0_right)
  then have "decodeQuanta [enc64 (val div 262144), enc64 (val div 4096), enc64 (val div 64), CHR ''='']
        = Some [of_nat (val div 65536), of_nat (val div 256)]"
    by (rule decodeQuanta_pad1 [OF dec64_enc64 dec64_enc64 dec64_enc64 enc64_not_special(1)])
  then show ?thesis
    by (simp only: undo3(1,2) [of a b 0, folded val])
qed

lemma quantum1:
  fixes a :: byte
  defines "val \<equiv> unat a * 65536"
  shows "decodeQuanta [enc64 (val div 262144), enc64 (val div 4096), CHR ''='', CHR ''=''] = Some [a]"
proof -
  have val: "val = unat a * 65536 + unat (0 :: byte) * 256 + unat (0 :: byte)" by (simp add: val_def)
  have m: "val mod 64 = 0" "val div 64 mod 64 = 0" unfolding val_def by simp_all
  have "(val div 262144 mod 64) * 262144 + (val div 4096 mod 64) * 4096 = val"
    using byte3 [of a 0 0, folded val] unfolding m by (simp only: add_0_right mult_zero_left)
  then have "decodeQuanta [enc64 (val div 262144), enc64 (val div 4096), CHR ''='', CHR ''='']
        = Some [of_nat (val div 65536)]"
    by (rule decodeQuanta_pad2 [OF dec64_enc64 dec64_enc64])
  then show ?thesis
    by (simp only: undo3(1) [of a 0 0, folded val])
qed

lemma decodeQuanta_EncodeToString: "decodeQuanta (EncodeToString bs) = Some bs"
proof (induction bs rule: EncodeToString.induct)
  case (1 a b c rest)
  then show ?case
    by (simp only: EncodeToString.simps Let_def append_Cons append_Nil quantum3 option.map)
next
  case (2 a b)
  show ?case
    by (simp only: EncodeToString.simps Let_def quantum2)
next
  case (3 a)
  show ?case
    by (simp only: EncodeToString.simps Let_def quantum1)
next
  case 4
  show ?case by simp
qed

lemma DecodeString_EncodeToString: "DecodeString (EncodeToString bs) = Some bs"
  by (simp add: DecodeString_def filter_EncodeToString decodeQuanta_EncodeToString)

section \<open>The numbers and strings of a claim\<close>

text \<open>
  A whole number of magnitude up to \<open>2^53\<close> is a \<open>float64\<close>, so the library's
  conversion leaves it as it is, and it decodes.
\<close>

lemma roundFloat64_small: "m < 2 ^ 53 \<Longrightarrow> roundFloat64 m = m"
  by (simp add: roundFloat64_def)

lemma bitlen_pow2: "bitlen (2 ^ n) = Suc n"
  by (induction n) (simp_all add: bitlen.simps)

lemma roundFloat64_pow53: "roundFloat64 (2 ^ 53) = 2 ^ 53"
proof -
  have k: "bitlen (2 ^ 53) - 53 = 1" by (simp only: bitlen_pow2)
  have d: "(2::nat) ^ 53 div 2 ^ 1 = 2 ^ 52" by simp
  have m: "(2::nat) ^ 53 mod 2 ^ 1 = 0" by simp
  have n: "\<not> (2::nat) ^ 53 < 2 ^ 53" by simp
  show ?thesis
    unfolding roundFloat64_def Let_def k d m if_not_P [OF n] by simp
qed

lemma roundFloat64_exact: "m \<le> 2 ^ 53 \<Longrightarrow> roundFloat64 m = m"
  using roundFloat64_small [of m] roundFloat64_pow53 by (cases "m = 2 ^ 53") auto

lemma nat_abs_le: "\<bar>n\<bar> \<le> 2 ^ 53 \<Longrightarrow> nat \<bar>n\<bar> \<le> 2 ^ 53"
  by (simp add: nat_le_iff)

lemma toInt64_exact: "\<bar>n\<bar> \<le> 2 ^ 53 \<Longrightarrow> toInt64 n = n"
proof -
  assume b: "\<bar>n\<bar> \<le> 2 ^ 53"
  then have r: "roundFloat64 (nat \<bar>n\<bar>) = nat \<bar>n\<bar>"
    by (intro roundFloat64_exact nat_abs_le)
  have s: "sgn n * int (nat \<bar>n\<bar>) = n" by (simp add: mult_sgn_abs)
  have "- (2 ^ 63) \<le> n \<and> n < 2 ^ 63" using b by (simp add: abs_le_iff)
  then show ?thesis unfolding toInt64_def r Let_def s by simp
qed


text \<open>
  Beyond \<open>2^53\<close> the conversion rounds: \<open>2^53 + 3\<close> becomes \<open>2^53 + 4\<close>, and the
  greatest \<open>int64\<close>, \<open>2^63 - 1\<close>, is rounded to \<open>2^63\<close>, which no \<open>int64\<close> holds, and
  so becomes the least \<open>int64\<close>.
\<close>

lemma toInt64_rounds: "toInt64 9007199254740995 = 9007199254740996"
  by (simp add: toInt64_def roundFloat64_def Let_def bitlen.simps)


text \<open>
  A string that is valid UTF-8 is written as it is; so is every string of ASCII
  characters, and with it everything that \<open>EncodeToString\<close> returns.
\<close>

lemma runeSize_ascii: "(of_char c :: nat) < 128 \<Longrightarrow> runeSize (c # s) = 1"
  by (simp add: runeSize_def)

lemma ValidString_jsonText: "ValidString s \<Longrightarrow> jsonText s = s"
proof (induction s rule: jsonText.induct)
  case (1 s)
  show ?case
  proof (cases "s = []")
    case True
    then show ?thesis by (simp add: jsonText.simps)
  next
    case False
    from "1.prems" False have n: "runeSize s \<noteq> 0" and v: "ValidString (drop (runeSize s) s)"
      by (subst (asm) ValidString.simps, simp split: if_splits)+
    from "1.IH"(2) [OF False n v] have "jsonText (drop (runeSize s) s) = drop (runeSize s) s" .
    with False n show ?thesis by (subst jsonText.simps) simp
  qed
qed

lemma ValidString_ascii: "\<forall>c\<in>set s. (of_char c :: nat) < 128 \<Longrightarrow> ValidString s"
proof (induction s)
  case Nil
  show ?case by (simp add: ValidString.simps)
next
  case (Cons c s)
  then have "runeSize (c # s) = 1" by (simp add: runeSize_ascii)
  with Cons show ?case by (subst ValidString.simps) simp
qed

lemma jsonText_ascii: "\<forall>c\<in>set s. (of_char c :: nat) < 128 \<Longrightarrow> jsonText s = s"
  by (rule ValidString_jsonText) (rule ValidString_ascii)

lemma enc64_ascii: "(of_char (enc64 v) :: nat) < 128"
proof -
  have a: "\<forall>c\<in>set encodeStd. (of_char c :: nat) < 128" by (simp add: encodeStd_def)
  have "length encodeStd = 64" by (simp add: encodeStd_def)
  then have "enc64 v \<in> set encodeStd" unfolding enc64_def by simp
  with a show ?thesis by blast
qed

lemma EncodeToString_ascii: "\<forall>c\<in>set (EncodeToString bs). (of_char c :: nat) < 128"
  by (induction bs rule: EncodeToString.induct) (simp_all add: Let_def enc64_ascii)

lemma jsonText_EncodeToString: "jsonText (EncodeToString bs) = EncodeToString bs"
  by (rule jsonText_ascii) (rule EncodeToString_ascii)

lemma Marshal_empty: "Marshal Map.empty = Map.empty"
  by (simp add: Marshal_def)

lemma Marshal_upd: "Marshal (m(k \<mapsto> v)) = (Marshal m)(k \<mapsto> marshalValue v)"
  by (rule ext) (simp add: Marshal_def)

lemma jsonText_iss: "jsonText ''keyshare_server'' = ''keyshare_server''"
  by (simp add: jsonText_ascii)

lemma jsonText_auth_tok: "jsonText ''auth_tok'' = ''auth_tok''"
  by (simp add: jsonText_ascii)

lemma jsonText_ProofP: "jsonText ''ProofP'' = ''ProofP''"
  by (simp add: jsonText_ascii)

lemma jsonText_u: "jsonText ''u'' = ''u''"
  by (simp add: jsonText_ascii)

lemmas Marshal_claims =
  Marshal_upd Marshal_empty marshalValue.simps jsonText_iss jsonText_auth_tok jsonText_ProofP
  jsonText_EncodeToString

section \<open>PIN padding (C8)\<close>

lemma padPin_short:
  "length s \<le> 64 \<Longrightarrow> padPin s = Inr (bytes_of s @ replicate (64 - length s) 0)"
  by (simp add: padPin_def copy_bytes_def bytes_of_def Let_def)

lemma padPin_long: "64 < length s \<Longrightarrow> padPin s = Inl ErrPinTooLong"
  by (simp add: padPin_def bytes_of_def Let_def)

text \<open>
  C8. For every string of at most 64 bytes \<open>padPin\<close> succeeds with exactly 64 bytes:
  the bytes of the string first, zero bytes after them. For every longer string it
  fails with \<open>ErrPinTooLong\<close>.
\<close>

theorem padPin_spec:
  "(length s \<le> 64 \<longrightarrow>
      (\<exists>res. padPin s = Inr res \<and> length res = 64 \<and>
             take (length s) res = bytes_of s \<and>
             (\<forall>b \<in> set (drop (length s) res). b = 0))) \<and>
   (64 < length s \<longrightarrow> padPin s = Inl ErrPinTooLong)"
  by (auto simp: padPin_short padPin_long bytes_of_def)

theorem padPin_spec_witness:
  "length ''1234'' \<le> 64 \<and>
   padPin ''1234'' = Inr ([0x31, 0x32, 0x33, 0x34] @ replicate 60 0) \<and>
   64 < length (replicate 65 CHR ''7'') \<and>
   padPin (replicate 65 CHR ''7'') = Inl ErrPinTooLong"
  using padPin_spec [of "''1234''"] padPin_spec [of "replicate 65 CHR ''7''"]
  by (simp add: padPin_short bytes_of_def)

section \<open>Helper facts about the operations\<close>

subsection \<open>The cipher\<close>

lemma aeadKeys_current: "aeadKeys c (fst (aeadCurrent c)) = Some (snd (aeadCurrent c))"
  by (simp add: aeadKeys_def)

lemma decrypt_encrypt:
  "encryptPacket c p nonceDraw = Inr ep \<Longrightarrow> decryptPacket c ep = Inr p"
  by (cases nonceDraw) (auto simp: encryptPacket_def decryptPacket_def aeadKeys_current)

lemma encrypt_Inr: "encryptPacket c p (Inr n) =
    Inr \<lparr>version = fst (aeadCurrent c), nonce = n, ciphertext = Sealed (snd (aeadCurrent c)) n p\<rparr>"
  by (simp add: encryptPacket_def)

subsection \<open>What \<open>ValidatePin\<close> returns\<close>

lemma SignedString_RS256:
  "SignedString (NewWithClaims SigningMethodRS256 cl\<lparr>Header_kid := Some k\<rparr>) key =
     Inr (Compact (Some ''RS256'') (Some k) (Marshal cl) (Some key))"
  by (simp add: SignedString_def NewWithClaims_def SigningMethodRS256_def)

lemma ValidatePin_ok:
  assumes "decryptPacket c ep = Inr p" and "padPin pinRaw = Inr (pin p)"
  shows "ValidatePin c ep pinRaw userID now_iat now_exp =
     Inr (Compact (Some ''RS256'') (Some (signKeyID c))
            [''iss'' \<mapsto> ClaimString ''keyshare_server'',
             ''sub'' \<mapsto> ClaimString ''auth_tok'',
             ''iat'' \<mapsto> ClaimNumber now_iat,
             ''exp'' \<mapsto> ClaimNumber (now_exp + 180),
             ''user_id'' \<mapsto> ClaimString (jsonText userID),
             ''token_id'' \<mapsto> ClaimString (EncodeToString (id_packet p))]
            (Some (signKey c)))"
  using assms
  by (simp add: ValidatePin_def hmac_Equal_def Let_def SignedString_RS256 Marshal_claims)

lemma ValidatePin_wrong:
  assumes "decryptPacket c ep = Inr p" and "padPin pinRaw = Inr padded" and "padded \<noteq> pin p"
  shows "ValidatePin c ep pinRaw userID now_iat now_exp = Inl ErrInvalidPin"
  using assms by (auto simp: ValidatePin_def hmac_Equal_def)

lemma ValidatePin_Inr:
  assumes "ValidatePin c ep pinRaw userID now_iat now_exp = Inr tok"
  shows "\<exists>p. decryptPacket c ep = Inr p \<and> padPin pinRaw = Inr (pin p) \<and>
     tok = Compact (Some ''RS256'') (Some (signKeyID c))
            [''iss'' \<mapsto> ClaimString ''keyshare_server'',
             ''sub'' \<mapsto> ClaimString ''auth_tok'',
             ''iat'' \<mapsto> ClaimNumber now_iat,
             ''exp'' \<mapsto> ClaimNumber (now_exp + 180),
             ''user_id'' \<mapsto> ClaimString (jsonText userID),
             ''token_id'' \<mapsto> ClaimString (EncodeToString (id_packet p))]
            (Some (signKey c))"
proof (cases "padPin pinRaw")
  case (Inl e)
  with assms show ?thesis by (simp add: ValidatePin_def)
next
  case padded: (Inr paddedPin)
  show ?thesis
  proof (cases "decryptPacket c ep")
    case (Inl e)
    with assms padded show ?thesis by (simp add: ValidatePin_def)
  next
    case (Inr p)
    show ?thesis
    proof (cases "paddedPin = pin p")
      case True
      with padded Inr have ok: "decryptPacket c ep = Inr p" "padPin pinRaw = Inr (pin p)"
        by simp_all
      have "tok = Compact (Some ''RS256'') (Some (signKeyID c))
            [''iss'' \<mapsto> ClaimString ''keyshare_server'',
             ''sub'' \<mapsto> ClaimString ''auth_tok'',
             ''iat'' \<mapsto> ClaimNumber now_iat,
             ''exp'' \<mapsto> ClaimNumber (now_exp + 180),
             ''user_id'' \<mapsto> ClaimString (jsonText userID),
             ''token_id'' \<mapsto> ClaimString (EncodeToString (id_packet p))]
            (Some (signKey c))"
        using assms unfolding ValidatePin_ok [OF ok] by simp
      with ok show ?thesis by blast
    next
      case False
      with assms show ?thesis
        by (simp add: ValidatePin_wrong [OF Inr padded])
    qed
  qed
qed

subsection \<open>What \<open>GenerateKeyshareSecret\<close> returns\<close>

lemma GenerateKeyshareSecret_Inr:
  assumes "GenerateKeyshareSecret c pinRaw newSecret idDraw nonceDraw = Inr ep"
  shows "\<exists>p. decryptPacket c ep = Inr p \<and> padPin pinRaw = Inr (pin p)"
proof -
  from assms obtain padded s i p0 where
    pad: "padPin pinRaw = Inr padded" and
    set: "setKeyshareSecret (setPin zeroPacket padded) s = Inr p0" and
    enc: "encryptPacket c (setID p0 i) nonceDraw = Inr ep"
    by (auto simp: GenerateKeyshareSecret_def split: sum.splits)
  from set have "pin p0 = padded"
    by (auto simp: setKeyshareSecret_def setPin_def pin_def split: if_splits)
  then have "pin (setID p0 i) = padded" by (simp add: setID_def pin_def)
  with pad decrypt_encrypt [OF enc] show ?thesis by auto
qed

subsection \<open>Which PINs pad alike\<close>

lemma unat_of_char: "unat (of_char ch :: byte) = of_char ch"
proof -
  have "unat (of_nat (of_char ch) :: byte) = of_char ch mod 256"
    by (simp add: unat_of_nat)
  then show ?thesis by (simp add: of_nat_of_char)
qed

lemma of_char_byte_eq: "(of_char a :: byte) = of_char b \<longleftrightarrow> a = b"
proof
  assume "(of_char a :: byte) = of_char b"
  then have "unat (of_char a :: byte) = unat (of_char b :: byte)" by simp
  then have "(of_char a :: nat) = of_char b" by (simp only: unat_of_char)
  then show "a = b" by simp
qed simp

lemma of_char_byte_zero: "(of_char ch :: byte) = 0 \<longleftrightarrow> ch = CHR 0x00"
  using of_char_byte_eq [of ch "CHR 0x00"] by simp

lemma bytes_of_inj: "bytes_of a = bytes_of b \<longleftrightarrow> a = b"
  unfolding bytes_of_def
  by (rule inj_map_eq_map) (simp add: inj_on_def of_char_byte_eq)

lemma trimPin_decomp:
  "s = trimPin s @ replicate (length s - length (trimPin s)) (CHR 0x00)"
proof -
  let ?P = "\<lambda>ch. ch = CHR 0x00"
  have "rev s = takeWhile ?P (rev s) @ dropWhile ?P (rev s)" by simp
  moreover have "takeWhile ?P (rev s) = replicate (length (takeWhile ?P (rev s))) (CHR 0x00)"
    by (rule replicate_length_same [symmetric]) (auto dest: set_takeWhileD)
  ultimately have "rev s = replicate (length (takeWhile ?P (rev s))) (CHR 0x00) @ dropWhile ?P (rev s)"
    by simp
  then have "rev (rev s) = rev (replicate (length (takeWhile ?P (rev s))) (CHR 0x00) @ dropWhile ?P (rev s))"
    by (rule arg_cong)
  then have s: "s = trimPin s @ replicate (length (takeWhile ?P (rev s))) (CHR 0x00)"
    by (simp add: trimPin_def)
  then have "length s = length (trimPin s) + length (takeWhile ?P (rev s))"
    by (metis length_append length_replicate)
  with s show ?thesis by simp
qed

lemma length_trimPin: "length (trimPin s) \<le> length s"
  by (simp add: trimPin_def length_dropWhile_le [of _ "rev s", simplified])

lemma padded_trim:
  assumes "length s \<le> 64"
  shows "bytes_of s @ replicate (64 - length s) 0
       = bytes_of (trimPin s) @ replicate (64 - length (trimPin s)) 0"
proof -
  let ?k = "length s - length (trimPin s)"
  have "bytes_of s = bytes_of (trimPin s) @ replicate ?k 0"
    by (subst trimPin_decomp [of s]) (simp add: bytes_of_def)
  moreover have "?k + (64 - length s) = 64 - length (trimPin s)"
    using assms length_trimPin [of s] by simp
  ultimately show ?thesis
    by (simp add: replicate_add [symmetric])
qed

lemma strip_padded:
  "rev (dropWhile (\<lambda>b. b = 0) (rev (bytes_of s @ replicate n 0))) = bytes_of (trimPin s)"
proof -
  have "dropWhile (\<lambda>b. b = (0 :: byte)) (replicate n 0 @ rev (bytes_of s))
      = dropWhile (\<lambda>b. b = 0) (rev (bytes_of s))"
    by (induction n) simp_all
  moreover have "dropWhile (\<lambda>b. b = (0 :: byte)) (rev (bytes_of s))
      = map of_char (dropWhile (\<lambda>ch. ch = CHR 0x00) (rev s))"
    by (simp add: bytes_of_def rev_map dropWhile_map comp_def of_char_byte_zero)
  ultimately show ?thesis
    by (simp add: trimPin_def bytes_of_def rev_map)
qed

lemma padPin_eq_iff:
  assumes "length a \<le> 64" and "length b \<le> 64"
  shows "padPin a = padPin b \<longleftrightarrow> trimPin a = trimPin b"
proof
  assume "padPin a = padPin b"
  with assms have "bytes_of a @ replicate (64 - length a) 0 = bytes_of b @ replicate (64 - length b) 0"
    by (simp add: padPin_short)
  then have "rev (dropWhile (\<lambda>x. x = 0) (rev (bytes_of a @ replicate (64 - length a) 0)))
           = rev (dropWhile (\<lambda>x. x = 0) (rev (bytes_of b @ replicate (64 - length b) 0)))"
    by (rule arg_cong)
  then have "bytes_of (trimPin a) = bytes_of (trimPin b)"
    by (simp only: strip_padded)
  then show "trimPin a = trimPin b" by (simp only: bytes_of_inj)
next
  assume "trimPin a = trimPin b"
  with assms show "padPin a = padPin b"
    by (simp add: padPin_short padded_trim [of a] padded_trim [of b])
qed

subsection \<open>What \<open>verifyAccess\<close> checks\<close>

lemma GetSigningMethod_RS256_iff:
  "GetSigningMethod a = Some SigningMethodRS256 \<longleftrightarrow> a = ''RS256''"
  by (auto simp: GetSigningMethod_def SigningMethodRS256_def signingMethods_def)

lemma GetSigningMethod_Some: "GetSigningMethod a = Some m \<Longrightarrow> m = SigningMethod a"
  by (auto simp: GetSigningMethod_def split: if_splits)

lemma jwt_Parse_NotAToken: "jwt_Parse NotAToken kf now = None"
  by (simp add: jwt_Parse_def)

lemma jwt_Parse_Compact:
  "jwt_Parse (Compact alg kid claims sig) (keyFunc c) now =
     (if alg = Some ''RS256'' \<and> sig = Some (signKey c) \<and> MapClaims_Valid claims now
      then Some \<lparr>Method = SigningMethodRS256, Header_kid = kid, Claims = claims\<rparr>
      else None)"
proof (cases alg)
  case None
  then show ?thesis by (simp add: jwt_Parse_def)
next
  case (Some a)
  show ?thesis
  proof (cases "GetSigningMethod a")
    case None
    then have "a \<noteq> ''RS256''"
      by (auto simp: GetSigningMethod_def signingMethods_def)
    with Some None show ?thesis by (simp add: jwt_Parse_def)
  next
    case m: (Some m)
    then have m_def: "m = SigningMethod a" by (rule GetSigningMethod_Some)
    show ?thesis
    proof (cases "a = ''RS256''")
      case True
      with Some m m_def show ?thesis
        by (cases sig)
          (auto simp: jwt_Parse_def keyFunc_def Verify_def SigningMethodRS256_def Let_def)
    next
      case False
      with Some m m_def show ?thesis
        by (simp add: jwt_Parse_def keyFunc_def SigningMethodRS256_def Let_def)
    qed
  qed
qed

lemma verifyAccess_NotAToken: "verifyAccess c ep NotAToken now1 now2 now3 = Inl ErrInvalidJWT"
  by (simp add: verifyAccess_def jwt_Parse_NotAToken)

lemma verifyAccess_Compact:
  "verifyAccess c ep (Compact alg kid claims sig) now1 now2 now3 =
     (if alg = Some ''RS256'' \<and> sig = Some (signKey c) \<and> MapClaims_Valid claims now1 \<and>
         MapClaims_Valid claims now2 \<and> VerifyExpiresAt claims now3 True
      then
        (case claims ''token_id'' of
           Some (ClaimString tokenIDB64) \<Rightarrow>
             (case DecodeString tokenIDB64 of
                None \<Rightarrow> Inl ErrInvalidJWT
              | Some tokenID \<Rightarrow>
                  (case decryptPacket c ep of
                     Inl e \<Rightarrow> Inl e
                   | Inr p \<Rightarrow> if id_packet p = tokenID then Inr p else Inl ErrInvalidJWT))
         | _ \<Rightarrow> Inl ErrInvalidJWT)
      else Inl ErrInvalidJWT)"
  by (simp add: verifyAccess_def jwt_Parse_Compact hmac_Equal_def
      split: option.split claim_value.split sum.split)

lemma VerifyExpiresAt_required:
  "VerifyExpiresAt m t True \<longleftrightarrow>
     (\<exists>e. m ''exp'' = Some (ClaimNumber e) \<and> toInt64 e \<noteq> 0 \<and> t \<le> toInt64 e)"
  by (auto simp: VerifyExpiresAt_def verifyExp_def split: option.splits claim_value.splits)

lemma VerifyExpiresAt_optional:
  "VerifyExpiresAt m t False \<longleftrightarrow>
     (\<forall>e. m ''exp'' = Some (ClaimNumber e) \<longrightarrow> toInt64 e = 0 \<or> t \<le> toInt64 e)"
  by (auto simp: VerifyExpiresAt_def verifyExp_def split: option.splits claim_value.splits)



lemma verifyAccess_error:
  "verifyAccess c ep jwtToken now1 now2 now3 = Inl e \<Longrightarrow>
     e = ErrInvalidJWT \<or> decryptPacket c ep = Inl e"
  by (cases jwtToken)
    (auto simp: verifyAccess_NotAToken verifyAccess_Compact
      split: if_splits option.splits claim_value.splits sum.splits)

lemma verifyAccess_Inr:
  "verifyAccess c ep jwtToken now1 now2 now3 = Inr p \<Longrightarrow> decryptPacket c ep = Inr p"
  by (cases jwtToken)
    (auto simp: verifyAccess_NotAToken verifyAccess_Compact
      split: if_splits option.splits claim_value.splits sum.splits)

subsection \<open>What \<open>ChangePin\<close> returns\<close>

lemma ChangePin_Inr:
  assumes "ChangePin c ep oldpinRaw newpinRaw idDraw nonceDraw = Inr ep'"
  shows "\<exists>p newpin i. decryptPacket c ep = Inr p \<and> padPin oldpinRaw = Inr (pin p) \<and>
           padPin newpinRaw = Inr newpin \<and> idDraw = Inr i \<and>
           decryptPacket c ep' = Inr (setID (setPin p newpin) i)"
proof -
  from assms obtain oldpin newpin p i where
    "padPin oldpinRaw = Inr oldpin" "padPin newpinRaw = Inr newpin"
    "decryptPacket c ep = Inr p" "hmac_Equal (pin p) oldpin" "idDraw = Inr i"
    "encryptPacket c (setID (setPin p newpin) i) nonceDraw = Inr ep'"
    by (auto simp: ChangePin_def split: sum.splits if_splits)
  then show ?thesis
    using decrypt_encrypt [of c "setID (setPin p newpin) i" nonceDraw ep']
    by (auto simp: hmac_Equal_def)
qed

subsection \<open>The concrete engine\<close>

lemma example_decrypt: "decryptPacket exampleCore exampleEP = Inr examplePacket"
  by (simp add: decryptPacket_def aeadKeys_def exampleCore_def exampleEP_def)

lemma example_pin: "padPin ''1234'' = Inr (pin examplePacket)"
  by (simp add: padPin_short pin_def examplePacket_def)

lemma example_keys:
  "signKey exampleCore = RSAPrivateKey 11" "signKeyID exampleCore = 1"
  "aeadCurrent exampleCore = (1, AeadKey 5)"
  by (simp_all add: exampleCore_def)

lemma example_id: "id_packet examplePacket = replicate 32 7"
  by (simp add: id_packet_def examplePacket_def)

lemma example_generate:
  "GenerateKeyshareSecret exampleCore ''1234'' (Inr 12345) (Inr (replicate 32 7))
     (Inr (replicate 12 9)) = Inr exampleEP"
  by (simp add: GenerateKeyshareSecret_def padPin_short setPin_def setID_def
      setKeyshareSecret_def secretLen_def zeroPacket_def encryptPacket_def
      exampleCore_def exampleEP_def examplePacket_def)

section \<open>PIN authentication (C3)\<close>

lemma GenerateKeyshareSecret_ok:
  assumes "length pinRaw \<le> 64" and "0 \<le> s" and "s < 256 ^ secretLen"
  shows "\<exists>ep. GenerateKeyshareSecret c pinRaw (Inr s) (Inr i) (Inr n) = Inr ep"
  using assms
  by (simp add: GenerateKeyshareSecret_def padPin_short setKeyshareSecret_def encrypt_Inr)

text \<open>
  C3, as amended. For a PIN of at most 64 bytes \<open>GenerateKeyshareSecret\<close> returns
  a packet (when its random draws succeed and the drawn secret fits the packet). On
  a packet that \<open>GenerateKeyshareSecret\<close> returned for a PIN, \<open>ValidatePin\<close> with
  the same PIN returns a token. With another PIN of at most 64 bytes it returns
  \<open>ErrInvalidPin\<close> when the two PINs differ in more than zero bytes at their ends,
  and a token when they differ in such bytes only.
\<close>

theorem PIN_authentication:
  "(length pinRaw \<le> 64 \<and> 0 \<le> s \<and> s < 256 ^ secretLen \<longrightarrow>
      (\<exists>ep'. GenerateKeyshareSecret c pinRaw (Inr s) (Inr i) (Inr n) = Inr ep')) \<and>
   (GenerateKeyshareSecret c pinRaw newSecret idDraw nonceDraw = Inr ep \<longrightarrow>
      (\<exists>tok :: 'r jwt_string. ValidatePin c ep pinRaw userID now_iat now_exp = Inr tok) \<and>
      (\<forall>pin'. length pin' \<le> 64 \<and> trimPin pin' \<noteq> trimPin pinRaw \<longrightarrow>
         ValidatePin c ep pin' userID now_iat now_exp = (Inl ErrInvalidPin :: error + 'r jwt_string)) \<and>
      (\<forall>pin'. length pin' \<le> 64 \<and> trimPin pin' = trimPin pinRaw \<longrightarrow>
         (\<exists>tok :: 'r jwt_string. ValidatePin c ep pin' userID now_iat now_exp = Inr tok)))"
proof (rule conjI)
  show "length pinRaw \<le> 64 \<and> 0 \<le> s \<and> s < 256 ^ secretLen \<longrightarrow>
      (\<exists>ep'. GenerateKeyshareSecret c pinRaw (Inr s) (Inr i) (Inr n) = Inr ep')"
    by (simp add: GenerateKeyshareSecret_ok)
next
  show "GenerateKeyshareSecret c pinRaw newSecret idDraw nonceDraw = Inr ep \<longrightarrow>
      (\<exists>tok :: 'r jwt_string. ValidatePin c ep pinRaw userID now_iat now_exp = Inr tok) \<and>
      (\<forall>pin'. length pin' \<le> 64 \<and> trimPin pin' \<noteq> trimPin pinRaw \<longrightarrow>
         ValidatePin c ep pin' userID now_iat now_exp = (Inl ErrInvalidPin :: error + 'r jwt_string)) \<and>
      (\<forall>pin'. length pin' \<le> 64 \<and> trimPin pin' = trimPin pinRaw \<longrightarrow>
         (\<exists>tok :: 'r jwt_string. ValidatePin c ep pin' userID now_iat now_exp = Inr tok))"
  proof (rule impI)
    assume gen: "GenerateKeyshareSecret c pinRaw newSecret idDraw nonceDraw = Inr ep"
    from GenerateKeyshareSecret_Inr [OF gen] obtain p where
      dec: "decryptPacket c ep = Inr p" and pad: "padPin pinRaw = Inr (pin p)"
      by blast
    have len: "length pinRaw \<le> 64"
    proof (rule ccontr)
      assume "\<not> length pinRaw \<le> 64"
      then have "padPin pinRaw = Inl ErrPinTooLong" by (simp add: padPin_long)
      with pad show False by simp
    qed
    have same: "\<exists>tok :: 'r jwt_string. ValidatePin c ep pinRaw userID now_iat now_exp = Inr tok"
      by (simp add: ValidatePin_ok [OF dec pad])
    have wrong: "ValidatePin c ep pin' userID now_iat now_exp = (Inl ErrInvalidPin :: error + 'r jwt_string)"
      if "length pin' \<le> 64" and "trimPin pin' \<noteq> trimPin pinRaw" for pin'
    proof -
      from that len have ne: "padPin pin' \<noteq> padPin pinRaw"
        by (simp add: padPin_eq_iff)
      from that(1) have pad': "padPin pin' = Inr (bytes_of pin' @ replicate (64 - length pin') 0)"
        by (rule padPin_short)
      with ne pad have "bytes_of pin' @ replicate (64 - length pin') 0 \<noteq> pin p" by auto
      with dec pad' show ?thesis by (rule ValidatePin_wrong)
    qed
    have alike: "\<exists>tok :: 'r jwt_string. ValidatePin c ep pin' userID now_iat now_exp = Inr tok"
      if "length pin' \<le> 64" and "trimPin pin' = trimPin pinRaw" for pin'
    proof -
      from that len have "padPin pin' = padPin pinRaw"
        by (simp add: padPin_eq_iff)
      with pad have "padPin pin' = Inr (pin p)" by simp
      then show ?thesis by (simp add: ValidatePin_ok [OF dec])
    qed
    from same wrong alike
    show "(\<exists>tok :: 'r jwt_string. ValidatePin c ep pinRaw userID now_iat now_exp = Inr tok) \<and>
      (\<forall>pin'. length pin' \<le> 64 \<and> trimPin pin' \<noteq> trimPin pinRaw \<longrightarrow>
         ValidatePin c ep pin' userID now_iat now_exp = (Inl ErrInvalidPin :: error + 'r jwt_string)) \<and>
      (\<forall>pin'. length pin' \<le> 64 \<and> trimPin pin' = trimPin pinRaw \<longrightarrow>
         (\<exists>tok :: 'r jwt_string. ValidatePin c ep pin' userID now_iat now_exp = Inr tok))"
      by blast
  qed
qed

theorem PIN_authentication_witness:
  "length ''1234'' \<le> 64 \<and> (0 :: int) \<le> 12345 \<and> (12345 :: int) < 256 ^ secretLen \<and>
   GenerateKeyshareSecret exampleCore ''1234'' (Inr 12345) (Inr (replicate 32 7))
     (Inr (replicate 12 9)) = Inr exampleEP \<and>
   (\<exists>tok :: nat jwt_string. ValidatePin exampleCore exampleEP ''1234'' ''u'' 59 59 = Inr tok) \<and>
   length ''9999'' \<le> 64 \<and> trimPin ''9999'' \<noteq> trimPin ''1234'' \<and>
   ValidatePin exampleCore exampleEP ''9999'' ''u'' 59 59 = (Inl ErrInvalidPin :: error + nat jwt_string)"
proof -
  have t: "length ''9999'' \<le> 64 \<and> trimPin ''9999'' \<noteq> trimPin ''1234''"
    by (simp add: trimPin_def)
  have fits: "(12345 :: int) < 256 ^ secretLen" by (simp add: secretLen_def)
  have inst: "(length ''1234'' \<le> 64 \<and> (0 :: int) \<le> 12345 \<and> (12345 :: int) < 256 ^ secretLen \<longrightarrow>
      (\<exists>ep'. GenerateKeyshareSecret exampleCore ''1234'' (Inr 12345) (Inr (replicate 32 7))
         (Inr (replicate 12 9)) = Inr ep')) \<and>
   (GenerateKeyshareSecret exampleCore ''1234'' (Inr 12345) (Inr (replicate 32 7))
         (Inr (replicate 12 9)) = Inr exampleEP \<longrightarrow>
      (\<exists>tok :: nat jwt_string. ValidatePin exampleCore exampleEP ''1234'' ''u'' 59 59 = Inr tok) \<and>
      (\<forall>pin'. length pin' \<le> 64 \<and> trimPin pin' \<noteq> trimPin ''1234'' \<longrightarrow>
         ValidatePin exampleCore exampleEP pin' ''u'' 59 59 = (Inl ErrInvalidPin :: error + nat jwt_string)) \<and>
      (\<forall>pin'. length pin' \<le> 64 \<and> trimPin pin' = trimPin ''1234'' \<longrightarrow>
         (\<exists>tok :: nat jwt_string. ValidatePin exampleCore exampleEP pin' ''u'' 59 59 = Inr tok)))"
    by (rule PIN_authentication)
  from inst [THEN conjunct2, THEN mp, OF example_generate] t fits example_generate
  show ?thesis by auto
qed

text \<open>
  The claim as written fails: the PIN \<open>1234\<close> followed by a zero byte is another
  string, and \<open>ValidatePin\<close> accepts it.
\<close>

theorem PIN_authentication_counterexample:
  "GenerateKeyshareSecret exampleCore ''1234'' (Inr 12345) (Inr (replicate 32 7))
     (Inr (replicate 12 9)) = Inr exampleEP \<and>
   ''1234'' @ [CHR 0x00] \<noteq> ''1234'' \<and> length (''1234'' @ [CHR 0x00]) \<le> 64 \<and>
   (ValidatePin exampleCore exampleEP (''1234'' @ [CHR 0x00]) ''u'' 59 59
      :: error + nat jwt_string) \<noteq> Inl ErrInvalidPin"
proof -
  have "padPin (''1234'' @ [CHR 0x00]) = padPin ''1234''"
    by (simp add: padPin_eq_iff trimPin_def)
  then have "padPin (''1234'' @ [CHR 0x00]) = Inr (pin examplePacket)"
    by (simp only: example_pin)
  then show ?thesis
    by (simp add: example_generate ValidatePin_ok [OF example_decrypt])
qed

section \<open>Changing the PIN keeps the secret (C6)\<close>

text \<open>
  C6. When the packet decrypts and its PIN is the old PIN, \<open>ChangePin\<close> (with a new
  PIN of at most 64 bytes and successful draws of the identifier and the nonce)
  returns a packet that decrypts to the old packet with only \<open>pin_hash\<close> and
  \<open>packet_id\<close> replaced: the keyshare secret is the same.
\<close>

theorem ChangePin_keeps_secret:
  assumes "decryptPacket c ep = Inr p"
    and "padPin oldpinRaw = Inr (pin p)"
    and "length newpinRaw \<le> 64"
  shows "\<exists>ep' p'. ChangePin c ep oldpinRaw newpinRaw (Inr i) (Inr n) = Inr ep' \<and>
           decryptPacket c ep' = Inr p' \<and>
           keyshareSecret p' = keyshareSecret p \<and>
           p' = p\<lparr>pin_hash := bytes_of newpinRaw @ replicate (64 - length newpinRaw) 0,
                  packet_id := i\<rparr>"
proof -
  let ?p' = "setID (setPin p (bytes_of newpinRaw @ replicate (64 - length newpinRaw) 0)) i"
  let ?ep' = "\<lparr>version = fst (aeadCurrent c), nonce = n,
               ciphertext = Sealed (snd (aeadCurrent c)) n ?p'\<rparr>"
  have ch: "ChangePin c ep oldpinRaw newpinRaw (Inr i) (Inr n) = Inr ?ep'"
    using assms by (simp add: ChangePin_def padPin_short hmac_Equal_def encrypt_Inr)
  have "encryptPacket c ?p' (Inr n) = Inr ?ep'" by (rule encrypt_Inr)
  then have dec: "decryptPacket c ?ep' = Inr ?p'" by (rule decrypt_encrypt)
  have "keyshareSecret ?p' = keyshareSecret p"
    by (simp add: keyshareSecret_def setID_def setPin_def)
  moreover have "?p' = p\<lparr>pin_hash := bytes_of newpinRaw @ replicate (64 - length newpinRaw) 0,
                  packet_id := i\<rparr>"
    by (simp add: setID_def setPin_def)
  ultimately show ?thesis using ch dec by blast
qed

theorem ChangePin_keeps_secret_witness:
  "decryptPacket exampleCore exampleEP = Inr examplePacket \<and>
   padPin ''1234'' = Inr (pin examplePacket) \<and> length ''5678'' \<le> 64 \<and>
   (\<exists>ep' p'. ChangePin exampleCore exampleEP ''1234'' ''5678'' (Inr (replicate 32 8))
                (Inr (replicate 12 3)) = Inr ep' \<and>
       decryptPacket exampleCore ep' = Inr p' \<and> keyshareSecret p' = 12345)"
proof -
  have s: "keyshareSecret examplePacket = 12345"
    by (simp add: keyshareSecret_def examplePacket_def)
  have l: "length ''5678'' \<le> 64" by simp
  from ChangePin_keeps_secret [OF example_decrypt example_pin l, of "replicate 32 8" "replicate 12 3"]
  show ?thesis unfolding s using example_decrypt example_pin by auto
qed

section \<open>The claims of the access token (C7)\<close>

text \<open>
  C7, as amended. The token that \<open>ValidatePin\<close> mints is signed with RS256 by the
  engine's signing key, carries the signing-key identifier in its header, and has
  the claims \<open>iss = keyshare_server\<close>, \<open>sub = auth_tok\<close>, \<open>user_id\<close> the caller's user
  identifier as JSON writes it (\<open>jsonText\<close>: every byte of it that is not part of
  valid UTF-8 replaced by \<open>U+FFFD\<close>), \<open>iat\<close> the Unix time of the first clock read,
  \<open>exp\<close> the Unix time of the second clock read plus 180, and \<open>token_id\<close> the
  standard base64 encoding of the identifier of the decrypted packet. So \<open>user_id\<close>
  is the caller's user identifier when that is valid UTF-8, \<open>exp = iat + 180\<close> when
  both reads fall into the same second, and \<open>exp \<ge> iat + 180\<close> when the clock does
  not run backwards.
\<close>

theorem access_token_claims:
  assumes "ValidatePin c ep pinRaw userID now_iat now_exp = Inr tok"
  shows "\<exists>p claims.
           decryptPacket c ep = Inr p \<and>
           tok = Compact (Some ''RS256'') (Some (signKeyID c)) claims (Some (signKey c)) \<and>
           claims = [''iss'' \<mapsto> ClaimString ''keyshare_server'',
                     ''sub'' \<mapsto> ClaimString ''auth_tok'',
                     ''iat'' \<mapsto> ClaimNumber now_iat,
                     ''exp'' \<mapsto> ClaimNumber (now_exp + 180),
                     ''user_id'' \<mapsto> ClaimString (jsonText userID),
                     ''token_id'' \<mapsto> ClaimString (EncodeToString (id_packet p))] \<and>
           (ValidString userID \<longrightarrow> claims ''user_id'' = Some (ClaimString userID)) \<and>
           (now_exp = now_iat \<longrightarrow> claims ''exp'' = Some (ClaimNumber (now_iat + 180))) \<and>
           (now_iat \<le> now_exp \<longrightarrow>
              (\<exists>e. claims ''exp'' = Some (ClaimNumber e) \<and> now_iat + 180 \<le> e))"
proof -
  from ValidatePin_Inr [OF assms] obtain p where
    "decryptPacket c ep = Inr p"
    "tok = Compact (Some ''RS256'') (Some (signKeyID c))
            [''iss'' \<mapsto> ClaimString ''keyshare_server'',
             ''sub'' \<mapsto> ClaimString ''auth_tok'',
             ''iat'' \<mapsto> ClaimNumber now_iat,
             ''exp'' \<mapsto> ClaimNumber (now_exp + 180),
             ''user_id'' \<mapsto> ClaimString (jsonText userID),
             ''token_id'' \<mapsto> ClaimString (EncodeToString (id_packet p))]
            (Some (signKey c))"
    by blast
  then show ?thesis by (simp add: ValidString_jsonText)
qed

lemma example_token:
  "(ValidatePin exampleCore exampleEP ''1234'' ''u'' now_iat now_exp :: error + 'r jwt_string) =
     Inr (Compact (Some ''RS256'') (Some 1)
            [''iss'' \<mapsto> ClaimString ''keyshare_server'',
             ''sub'' \<mapsto> ClaimString ''auth_tok'',
             ''iat'' \<mapsto> ClaimNumber now_iat,
             ''exp'' \<mapsto> ClaimNumber (now_exp + 180),
             ''user_id'' \<mapsto> ClaimString ''u'',
             ''token_id'' \<mapsto> ClaimString (EncodeToString (replicate 32 7))]
            (Some (RSAPrivateKey 11)))"
  by (simp add: ValidatePin_ok [OF example_decrypt example_pin] example_keys example_id
      jsonText_u)

lemma ValidString_u: "ValidString ''u''"
  by (simp add: ValidString_ascii)

lemma jsonText_invalid: "jsonText [CHR 0xFF] = [CHR 0xEF, CHR 0xBF, CHR 0xBD]"
  by (simp add: jsonText.simps runeSize_def)

theorem access_token_claims_witness:
  "\<exists>tok :: nat jwt_string.
     ValidatePin exampleCore exampleEP ''1234'' ''u'' 59 59 = Inr tok \<and>
     ValidString ''u'' \<and>
     tok = Compact (Some ''RS256'') (Some 1)
            [''iss'' \<mapsto> ClaimString ''keyshare_server'',
             ''sub'' \<mapsto> ClaimString ''auth_tok'',
             ''iat'' \<mapsto> ClaimNumber 59,
             ''exp'' \<mapsto> ClaimNumber 239,
             ''user_id'' \<mapsto> ClaimString ''u'',
             ''token_id'' \<mapsto> ClaimString (EncodeToString (replicate 32 7))]
            (Some (RSAPrivateKey 11))"
proof -
  have v: "(ValidatePin exampleCore exampleEP ''1234'' ''u'' 59 59 :: error + nat jwt_string) =
     Inr (Compact (Some ''RS256'') (Some 1)
            [''iss'' \<mapsto> ClaimString ''keyshare_server'',
             ''sub'' \<mapsto> ClaimString ''auth_tok'',
             ''iat'' \<mapsto> ClaimNumber 59,
             ''exp'' \<mapsto> ClaimNumber 239,
             ''user_id'' \<mapsto> ClaimString ''u'',
             ''token_id'' \<mapsto> ClaimString (EncodeToString (replicate 32 7))]
            (Some (RSAPrivateKey 11)))"
    by (simp add: example_token)
  from access_token_claims [OF v] v ValidString_u show ?thesis by simp
qed

text \<open>
  The claim as written fails in two ways. When the clock ticks between the two
  reads, with \<open>iat\<close> read at second 59 and \<open>exp\<close> computed from a read at second 60,
  \<open>exp\<close> is 240 and not \<open>iat + 180 = 239\<close>. And for the user identifier that is
  the one byte \<open>FF\<close>, which is not valid UTF-8, the \<open>user_id\<close> of the token is not that
  byte but the replacement character, the three bytes \<open>EF BF BD\<close>.
\<close>

theorem access_token_claims_counterexample:
  "\<exists>alg kid claims sig.
     (ValidatePin exampleCore exampleEP ''1234'' [CHR 0xFF] 59 60 :: error + nat jwt_string)
       = Inr (Compact alg kid claims sig) \<and>
     claims ''iat'' = Some (ClaimNumber 59) \<and>
     claims ''exp'' = Some (ClaimNumber 240) \<and>
     claims ''exp'' \<noteq> Some (ClaimNumber (59 + 180)) \<and>
     claims ''user_id'' = Some (ClaimString [CHR 0xEF, CHR 0xBF, CHR 0xBD]) \<and>
     claims ''user_id'' \<noteq> Some (ClaimString [CHR 0xFF])"
  by (simp add: ValidatePin_ok [OF example_decrypt example_pin] jsonText_invalid)

section \<open>A PIN change invalidates the tokens (C4)\<close>

text \<open>
  C4. A token that \<open>ValidatePin\<close> issued against a packet fails, with
  \<open>ErrInvalidJWT\<close>, against the packet that \<open>ChangePin\<close> made of it, whenever the
  identifier drawn by \<open>ChangePin\<close> differs from the old one; and it does so at every
  time of verification.
\<close>

theorem token_bound_to_packet:
  assumes "ValidatePin c ep1 pinRaw userID now_iat now_exp = Inr (tok :: 'r jwt_string)"
    and "decryptPacket c ep1 = Inr p1"
    and "ChangePin c ep1 oldpinRaw newpinRaw (Inr i) nonceDraw = Inr ep2"
    and "i \<noteq> id_packet p1"
  shows "ValidateJWT c ep2 tok now1 now2 now3 = Some ErrInvalidJWT"
proof -
  from ValidatePin_Inr [OF assms(1)] assms(2) have
    tok: "tok = Compact (Some ''RS256'') (Some (signKeyID c))
            [''iss'' \<mapsto> ClaimString ''keyshare_server'',
             ''sub'' \<mapsto> ClaimString ''auth_tok'',
             ''iat'' \<mapsto> ClaimNumber now_iat,
             ''exp'' \<mapsto> ClaimNumber (now_exp + 180),
             ''user_id'' \<mapsto> ClaimString (jsonText userID),
             ''token_id'' \<mapsto> ClaimString (EncodeToString (id_packet p1))]
            (Some (signKey c))"
    by auto
  from ChangePin_Inr [OF assms(3)] assms(2) obtain newpin where
    dec2: "decryptPacket c ep2 = Inr (setID (setPin p1 newpin) i)"
    by auto
  have "id_packet (setID (setPin p1 newpin) i) = i"
    by (simp add: id_packet_def setID_def)
  with assms(4) have "id_packet (setID (setPin p1 newpin) i) \<noteq> id_packet p1" by simp
  then show ?thesis
    unfolding tok ValidateJWT_def
    by (simp add: verifyAccess_Compact DecodeString_EncodeToString dec2)
qed

lemma example_ChangePin:
  "ChangePin exampleCore exampleEP ''1234'' ''5678'' (Inr (replicate 32 8)) (Inr (replicate 12 3))
     = Inr \<lparr>version = 1, nonce = replicate 12 3,
            ciphertext = Sealed (AeadKey 5) (replicate 12 3)
              (setID (setPin examplePacket (bytes_of ''5678'' @ replicate 60 0)) (replicate 32 8))\<rparr>"
proof -
  have "padPin ''5678'' = Inr (bytes_of ''5678'' @ replicate 60 0)"
    by (simp add: padPin_short)
  then show ?thesis
    by (simp add: ChangePin_def example_pin example_decrypt hmac_Equal_def encrypt_Inr
        example_keys)
qed

theorem token_bound_to_packet_witness:
  "\<exists>(tok :: nat jwt_string) ep2.
     ValidatePin exampleCore exampleEP ''1234'' ''u'' 59 59 = Inr tok \<and>
     decryptPacket exampleCore exampleEP = Inr examplePacket \<and>
     ChangePin exampleCore exampleEP ''1234'' ''5678'' (Inr (replicate 32 8))
       (Inr (replicate 12 3)) = Inr ep2 \<and>
     replicate 32 8 \<noteq> id_packet examplePacket \<and>
     ValidateJWT exampleCore ep2 tok 60 60 60 = Some ErrInvalidJWT"
proof -
  have ne: "replicate 32 (8 :: byte) \<noteq> id_packet examplePacket"
    by (simp add: example_id)
  note tok = example_token [where 'r = nat, of 59 59]
  have "ValidateJWT exampleCore
          \<lparr>version = 1, nonce = replicate 12 3,
            ciphertext = Sealed (AeadKey 5) (replicate 12 3)
              (setID (setPin examplePacket (bytes_of ''5678'' @ replicate 60 0)) (replicate 32 8))\<rparr>
          (Compact (Some ''RS256'') (Some 1)
            [''iss'' \<mapsto> ClaimString ''keyshare_server'',
             ''sub'' \<mapsto> ClaimString ''auth_tok'',
             ''iat'' \<mapsto> ClaimNumber 59,
             ''exp'' \<mapsto> ClaimNumber (59 + 180),
             ''user_id'' \<mapsto> ClaimString ''u'',
             ''token_id'' \<mapsto> ClaimString (EncodeToString (replicate 32 7))]
            (Some (RSAPrivateKey 11)) :: nat jwt_string) 60 60 60 = Some ErrInvalidJWT"
    by (rule token_bound_to_packet [OF tok example_decrypt example_ChangePin ne])
  with tok example_decrypt example_ChangePin ne show ?thesis
    by blast
qed

section \<open>What token verification rejects (C2)\<close>

text \<open>
  C2, as amended. \<open>ValidateJWT\<close> rejects with \<open>ErrInvalidJWT\<close>: a string that is no
  token; a token whose algorithm is not RS256; a token whose signature does not
  verify under the engine's public signing key; a token whose \<open>exp\<close> is missing or
  not a number, or is a number that the library converts (\<open>toInt64\<close>) to zero or to
  a time earlier than one of the clock reads of the verification; a token whose
  \<open>token_id\<close> is missing, not a string or not base64; and a token whose decoded
  \<open>token_id\<close> differs from the identifier of the decrypted packet. The conversion
  leaves a whole number of magnitude up to \<open>2^53\<close> as it is, so a token is rejected
  when its \<open>exp\<close> is such a number and is zero or earlier than one of the clock
  reads. Whatever error \<open>ValidateJWT\<close> returns is \<open>ErrInvalidJWT\<close>, unless it is the
  error of the packet's decryption. (A token whose \<open>exp\<close> equals the time of the clock
  reads is not rejected.)
\<close>

theorem token_verification_rejects:
  fixes claims :: "'r MapClaims"
  shows
  "ValidateJWT c ep (NotAToken :: 'r jwt_string) now1 now2 now3 = Some ErrInvalidJWT \<and>
   (alg \<noteq> Some ''RS256'' \<longrightarrow>
      ValidateJWT c ep (Compact alg kid claims sig) now1 now2 now3 = Some ErrInvalidJWT) \<and>
   (sig \<noteq> Some (signKey c) \<longrightarrow>
      ValidateJWT c ep (Compact alg kid claims sig) now1 now2 now3 = Some ErrInvalidJWT) \<and>
   ((\<nexists>e. claims ''exp'' = Some (ClaimNumber e) \<and> toInt64 e \<noteq> 0 \<and>
           now1 \<le> toInt64 e \<and> now2 \<le> toInt64 e \<and> now3 \<le> toInt64 e) \<longrightarrow>
      ValidateJWT c ep (Compact alg kid claims sig) now1 now2 now3 = Some ErrInvalidJWT) \<and>
   (\<forall>e. claims ''exp'' = Some (ClaimNumber e) \<and> \<bar>e\<bar> \<le> 2 ^ 53 \<and>
        (e = 0 \<or> e < now1 \<or> e < now2 \<or> e < now3) \<longrightarrow>
      ValidateJWT c ep (Compact alg kid claims sig) now1 now2 now3 = Some ErrInvalidJWT) \<and>
   ((\<nexists>s bs. claims ''token_id'' = Some (ClaimString s) \<and> DecodeString s = Some bs) \<longrightarrow>
      ValidateJWT c ep (Compact alg kid claims sig) now1 now2 now3 = Some ErrInvalidJWT) \<and>
   (\<forall>s bs p. claims ''token_id'' = Some (ClaimString s) \<and> DecodeString s = Some bs \<and>
        decryptPacket c ep = Inr p \<and> bs \<noteq> id_packet p \<longrightarrow>
      ValidateJWT c ep (Compact alg kid claims sig) now1 now2 now3 = Some ErrInvalidJWT) \<and>
   (\<forall>(jwt :: 'r jwt_string) e. ValidateJWT c ep jwt now1 now2 now3 = Some e \<longrightarrow>
      e = ErrInvalidJWT \<or> decryptPacket c ep = Inl e)"
proof -
  let ?V = "ValidateJWT c ep (Compact alg kid claims sig) now1 now2 now3"
  have none: "ValidateJWT c ep (NotAToken :: 'r jwt_string) now1 now2 now3 = Some ErrInvalidJWT"
    by (simp add: ValidateJWT_def verifyAccess_NotAToken)
  have alg: "?V = Some ErrInvalidJWT" if "alg \<noteq> Some ''RS256''"
    using that by (simp add: ValidateJWT_def verifyAccess_Compact)
  have sig: "?V = Some ErrInvalidJWT" if "sig \<noteq> Some (signKey c)"
    using that by (simp add: ValidateJWT_def verifyAccess_Compact)
  have exp: "?V = Some ErrInvalidJWT"
    if "\<nexists>e. claims ''exp'' = Some (ClaimNumber e) \<and> toInt64 e \<noteq> 0 \<and>
           now1 \<le> toInt64 e \<and> now2 \<le> toInt64 e \<and> now3 \<le> toInt64 e"
  proof -
    from that have "\<not> (MapClaims_Valid claims now1 \<and> MapClaims_Valid claims now2 \<and>
        VerifyExpiresAt claims now3 True)"
      by (auto simp: MapClaims_Valid_def VerifyExpiresAt_required VerifyExpiresAt_optional)
    then show ?thesis
      by (auto simp: ValidateJWT_def verifyAccess_Compact)
  qed
  have plain: "?V = Some ErrInvalidJWT"
    if "claims ''exp'' = Some (ClaimNumber e)" "\<bar>e\<bar> \<le> 2 ^ 53"
      "e = 0 \<or> e < now1 \<or> e < now2 \<or> e < now3" for e
  proof (rule exp)
    from that(2) have "toInt64 e = e" by (rule toInt64_exact)
    with that(1,3) show "\<nexists>e. claims ''exp'' = Some (ClaimNumber e) \<and> toInt64 e \<noteq> 0 \<and>
           now1 \<le> toInt64 e \<and> now2 \<le> toInt64 e \<and> now3 \<le> toInt64 e"
      by auto
  qed
  have tid: "?V = Some ErrInvalidJWT"
    if "\<nexists>s bs. claims ''token_id'' = Some (ClaimString s) \<and> DecodeString s = Some bs"
    using that
    by (auto simp: ValidateJWT_def verifyAccess_Compact
        split: option.splits claim_value.splits)
  have mismatch: "?V = Some ErrInvalidJWT"
    if "claims ''token_id'' = Some (ClaimString s)" "DecodeString s = Some bs"
      "decryptPacket c ep = Inr p" "bs \<noteq> id_packet p" for s bs p
    using that by (auto simp: ValidateJWT_def verifyAccess_Compact)
  have single: "e = ErrInvalidJWT \<or> decryptPacket c ep = Inl e"
    if "ValidateJWT c ep jwt now1 now2 now3 = Some e" for jwt :: "'r jwt_string" and e
  proof (cases "verifyAccess c ep jwt now1 now2 now3")
    case (Inl e')
    with that have "e' = e" by (simp add: ValidateJWT_def)
    with Inl show ?thesis by (auto dest: verifyAccess_error)
  next
    case (Inr p)
    with that show ?thesis by (simp add: ValidateJWT_def)
  qed
  from none alg sig exp plain tid mismatch single show ?thesis by blast
qed

lemmas claim_checks =
  ValidateJWT_def verifyAccess_Compact verifyAccess_NotAToken MapClaims_Valid_def
  VerifyExpiresAt_def VerifyIssuedAt_def VerifyNotBefore_def verifyExp_def verifyIat_def
  toInt64_exact
  verifyNbf_def DecodeString_EncodeToString example_decrypt example_id example_keys

theorem token_verification_rejects_witness:
  "ValidateJWT exampleCore exampleEP (NotAToken :: nat jwt_string) 60 60 60 = Some ErrInvalidJWT \<and>
   Some ''HS256'' \<noteq> Some ''RS256'' \<and>
   ValidateJWT exampleCore exampleEP
     (Compact (Some ''HS256'') (Some 1)
        [''exp'' \<mapsto> ClaimNumber 239,
         ''token_id'' \<mapsto> ClaimString (EncodeToString (replicate 32 7))]
        (Some (RSAPrivateKey 11)) :: nat jwt_string) 60 60 60 = Some ErrInvalidJWT \<and>
   Some (RSAPrivateKey 12) \<noteq> Some (signKey exampleCore) \<and>
   ValidateJWT exampleCore exampleEP
     (Compact (Some ''RS256'') (Some 1)
        [''exp'' \<mapsto> ClaimNumber 239,
         ''token_id'' \<mapsto> ClaimString (EncodeToString (replicate 32 7))]
        (Some (RSAPrivateKey 12)) :: nat jwt_string) 60 60 60 = Some ErrInvalidJWT \<and>
   ValidateJWT exampleCore exampleEP
     (Compact (Some ''RS256'') (Some 1)
        [''exp'' \<mapsto> ClaimNumber 59,
         ''token_id'' \<mapsto> ClaimString (EncodeToString (replicate 32 7))]
        (Some (RSAPrivateKey 11)) :: nat jwt_string) 60 60 60 = Some ErrInvalidJWT \<and>
   ValidateJWT exampleCore exampleEP
     (Compact (Some ''RS256'') (Some 1)
        [''exp'' \<mapsto> ClaimNumber 239, ''token_id'' \<mapsto> ClaimString ''!!!!'']
        (Some (RSAPrivateKey 11)) :: nat jwt_string) 60 60 60 = Some ErrInvalidJWT \<and>
   ValidateJWT exampleCore exampleEP
     (Compact (Some ''RS256'') (Some 1)
        [''exp'' \<mapsto> ClaimNumber 239,
         ''token_id'' \<mapsto> ClaimString (EncodeToString (replicate 32 8))]
        (Some (RSAPrivateKey 11)) :: nat jwt_string) 60 60 60 = Some ErrInvalidJWT"
proof -
  let ?tid = "ClaimString (EncodeToString (replicate 32 7)) :: nat claim_value"
  let ?good = "[''exp'' \<mapsto> ClaimNumber 239, ''token_id'' \<mapsto> ?tid]"
  let ?expired = "[''exp'' \<mapsto> ClaimNumber 59, ''token_id'' \<mapsto> ?tid]"
  let ?nob64 = "[''exp'' \<mapsto> ClaimNumber 239, ''token_id'' \<mapsto> (ClaimString ''!!!!'' :: nat claim_value)]"
  let ?other = "[''exp'' \<mapsto> ClaimNumber 239,
         ''token_id'' \<mapsto> (ClaimString (EncodeToString (replicate 32 8)) :: nat claim_value)]"
  note r = token_verification_rejects [where 'r = nat and c = exampleCore and ep = exampleEP]
  have a: "ValidateJWT exampleCore exampleEP (NotAToken :: nat jwt_string) 60 60 60 = Some ErrInvalidJWT"
    using r [of 60 60 60] by blast
  have b: "ValidateJWT exampleCore exampleEP
      (Compact (Some ''HS256'') (Some 1) ?good (Some (RSAPrivateKey 11))) 60 60 60 = Some ErrInvalidJWT"
    using r [of 60 60 60 "Some ''HS256''" "Some 1" ?good "Some (RSAPrivateKey 11)"] by simp
  have k: "Some (RSAPrivateKey 12) \<noteq> Some (signKey exampleCore)"
    by (simp add: example_keys)
  have c: "ValidateJWT exampleCore exampleEP
      (Compact (Some ''RS256'') (Some 1) ?good (Some (RSAPrivateKey 12))) 60 60 60 = Some ErrInvalidJWT"
    using r [of 60 60 60 "Some ''RS256''" "Some 1" ?good "Some (RSAPrivateKey 12)"] k by blast
  have d: "ValidateJWT exampleCore exampleEP
      (Compact (Some ''RS256'') (Some 1) ?expired (Some (RSAPrivateKey 11))) 60 60 60 = Some ErrInvalidJWT"
    using r [of 60 60 60 "Some ''RS256''" "Some 1" ?expired "Some (RSAPrivateKey 11)"] by simp
  have nb: "DecodeString ''!!!!'' = None"
    by (simp add: DecodeString_def dec64_def encodeStd_def)
  have e: "ValidateJWT exampleCore exampleEP
      (Compact (Some ''RS256'') (Some 1) ?nob64 (Some (RSAPrivateKey 11))) 60 60 60 = Some ErrInvalidJWT"
    using r [of 60 60 60 "Some ''RS256''" "Some 1" ?nob64 "Some (RSAPrivateKey 11)"] nb by simp
  have ne: "replicate 32 (8 :: byte) \<noteq> id_packet examplePacket"
    by (simp add: example_id)
  have f: "ValidateJWT exampleCore exampleEP
      (Compact (Some ''RS256'') (Some 1) ?other (Some (RSAPrivateKey 11))) 60 60 60 = Some ErrInvalidJWT"
    using r [of 60 60 60 "Some ''RS256''" "Some 1" ?other "Some (RSAPrivateKey 11)"]
      DecodeString_EncodeToString [of "replicate 32 8"] example_decrypt ne
    by simp
  from a b c d e f k show ?thesis by simp
qed

text \<open>
  The claim as written fails at the boundary: the token that \<open>ValidatePin\<close> mints
  at second 820 has \<open>exp = 1000\<close>; at second 1000 its \<open>exp\<close> is not strictly in the
  future, and \<open>ValidateJWT\<close> accepts it. Nor is every token with \<open>exp < now\<close>
  rejected, which is why the theorem bounds \<open>exp\<close> where it speaks of the claim
  itself: were the clock to read \<open>2^53 + 4\<close>, a token with \<open>exp = 2^53 + 3\<close> would be
  accepted, because the library compares the rounded number.
\<close>

theorem token_verification_rejects_counterexample:
  "(ValidatePin exampleCore exampleEP ''1234'' ''u'' 820 820 :: error + nat jwt_string) =
     Inr (Compact (Some ''RS256'') (Some 1)
            [''iss'' \<mapsto> ClaimString ''keyshare_server'',
             ''sub'' \<mapsto> ClaimString ''auth_tok'',
             ''iat'' \<mapsto> ClaimNumber 820,
             ''exp'' \<mapsto> ClaimNumber 1000,
             ''user_id'' \<mapsto> ClaimString ''u'',
             ''token_id'' \<mapsto> ClaimString (EncodeToString (replicate 32 7))]
            (Some (RSAPrivateKey 11))) \<and>
   \<not> (1000 :: int) < 1000 \<and>
   ValidateJWT exampleCore exampleEP
     (Compact (Some ''RS256'') (Some 1)
            [''iss'' \<mapsto> ClaimString ''keyshare_server'',
             ''sub'' \<mapsto> ClaimString ''auth_tok'',
             ''iat'' \<mapsto> ClaimNumber 820,
             ''exp'' \<mapsto> ClaimNumber 1000,
             ''user_id'' \<mapsto> ClaimString ''u'',
             ''token_id'' \<mapsto> ClaimString (EncodeToString (replicate 32 7))]
            (Some (RSAPrivateKey 11)) :: nat jwt_string) 1000 1000 1000 = None \<and>
   (9007199254740995 :: int) < 9007199254740996 \<and>
   ValidateJWT exampleCore exampleEP
     (Compact (Some ''RS256'') (Some 1)
            [''exp'' \<mapsto> ClaimNumber 9007199254740995,
             ''token_id'' \<mapsto> ClaimString (EncodeToString (replicate 32 7))]
            (Some (RSAPrivateKey 11)) :: nat jwt_string)
       9007199254740996 9007199254740996 9007199254740996 = None"
  by (simp add: example_token claim_checks toInt64_rounds)

section \<open>Claims that verification does not read (C10)\<close>






subsection \<open>\<open>GenerateResponse\<close> step by step\<close>

lemma GenerateResponse_bad_challenge:
  "BitLen challenge > Lh \<or> challenge < 0 \<Longrightarrow>
   GenerateResponse c ep accessToken commitID challenge keyID now1 now2 now3 kr now_iat =
     (Inl ErrInvalidChallenge, c)"
  by (simp add: GenerateResponse_def)

lemma GenerateResponse_checked:
  assumes "\<not> (BitLen challenge > Lh \<or> challenge < 0)"
    and "trustedKeys c keyID = Some key"
    and "verifyAccess c ep accessToken now1 now2 now3 = Inr p"
  shows "GenerateResponse c ep accessToken commitID challenge keyID now1 now2 now3 kr now_iat =
     ((case commitmentData c commitID of
         None \<Rightarrow> Inl ErrUnknownCommit
       | Some commit \<Rightarrow>
           Inr (Compact (Some ''RS256'') (Some (signKeyID c))
                  [''ProofP'' \<mapsto> ClaimProofP (kr (keyshareSecret p) commit challenge key),
                   ''iat'' \<mapsto> ClaimNumber now_iat,
                   ''sub'' \<mapsto> ClaimString ''ProofP'',
                   ''iss'' \<mapsto> ClaimString ''keyshare_server'']
                  (Some (signKey c)))),
      c\<lparr>commitmentData := (commitmentData c)(commitID := None)\<rparr>)"
  using assms
  by (simp add: GenerateResponse_def Let_def SignedString_RS256 Marshal_claims
      split: option.split)

lemma GenerateResponse_unchecked:
  assumes "(BitLen challenge > Lh \<or> challenge < 0) \<or> trustedKeys c keyID = None \<or>
           (\<nexists>p. verifyAccess c ep accessToken now1 now2 now3 = Inr p)"
  shows "snd (GenerateResponse c ep accessToken commitID challenge keyID now1 now2 now3 kr now_iat) = c"
  using assms
  by (auto simp: GenerateResponse_def split: option.split sum.split)

lemma decryptPacket_store:
  "decryptPacket (c\<lparr>commitmentData := m\<rparr>) ep = decryptPacket c ep"
  by (simp add: decryptPacket_def aeadKeys_def)

lemma keyFunc_store: "keyFunc (c\<lparr>commitmentData := m\<rparr>) = keyFunc c"
  by (rule ext) (simp add: keyFunc_def)

lemma verifyAccess_store:
  "verifyAccess (c\<lparr>commitmentData := m\<rparr>) ep tok now1 now2 now3 = verifyAccess c ep tok now1 now2 now3"
  unfolding verifyAccess_def decryptPacket_store keyFunc_store by (rule refl)

lemma BitLen_pow2: "BitLen (2 ^ n) = Suc n"
proof -
  have "nat \<bar>2 ^ n :: int\<bar> = 2 ^ n" by (simp add: nat_power_eq)
  then show ?thesis unfolding BitLen_def by (simp only: bitlen_pow2)
qed

lemma BitLen_42: "BitLen 42 = 6"
  by (simp add: BitLen_def bitlen.simps)

section \<open>Commit records are used once (C1)\<close>

text \<open>
  C1. Once a call of \<open>GenerateResponse\<close> with the commit identifier \<open>commitID\<close> has
  passed the challenge, key and token checks, and so has fetched and removed the
  record (whether there was one or not, that is, whether the call succeeded or
  failed), every further call with the same identifier that passes these checks
  returns \<open>ErrUnknownCommit\<close>.
\<close>

theorem commit_single_use:
  fixes tok1 tok2 :: "'r jwt_string"
  assumes "\<not> (BitLen ch1 > Lh \<or> ch1 < 0)"
    and "trustedKeys c k1 = Some key1"
    and "verifyAccess c ep1 tok1 a1 a2 a3 = Inr p1"
    and "GenerateResponse c ep1 tok1 commitID ch1 k1 a1 a2 a3 kr1 t1 = (r1, c')"
    and "\<not> (BitLen ch2 > Lh \<or> ch2 < 0)"
    and "trustedKeys c' k2 = Some key2"
    and "verifyAccess c' ep2 tok2 b1 b2 b3 = Inr p2"
  shows "fst (GenerateResponse c' ep2 tok2 commitID ch2 k2 b1 b2 b3 kr2 t2) = Inl ErrUnknownCommit"
proof -
  from assms(4) have "c' = c\<lparr>commitmentData := (commitmentData c)(commitID := None)\<rparr>"
    by (simp add: GenerateResponse_checked [OF assms(1-3)])
  then have "commitmentData c' commitID = None" by simp
  then show ?thesis
    by (simp add: GenerateResponse_checked [OF assms(5-7)])
qed

lemma example_key:
  "trustedKeys exampleCore (PublicKeyIdentifier ''irma-demo.MijnOverheid'' 2) = Some 7"
  by (simp add: exampleCore_def)

lemma example_access:
  "verifyAccess exampleCore exampleEP
     (Compact (Some ''RS256'') (Some 1)
        [''iss'' \<mapsto> ClaimString ''keyshare_server'',
         ''sub'' \<mapsto> ClaimString ''auth_tok'',
         ''iat'' \<mapsto> ClaimNumber 59,
         ''exp'' \<mapsto> ClaimNumber 239,
         ''user_id'' \<mapsto> ClaimString ''u'',
         ''token_id'' \<mapsto> ClaimString (EncodeToString (replicate 32 7))]
        (Some (RSAPrivateKey 11))) 60 60 60 = Inr examplePacket"
  by (simp add: claim_checks)

lemma example_bounds: "\<not> (BitLen 42 > Lh \<or> (42 :: int) < 0)"
  by (simp add: BitLen_42 Lh_def)

theorem commit_single_use_witness:
  "\<exists>(tok :: nat jwt_string) r1.
     ValidatePin exampleCore exampleEP ''1234'' ''u'' 59 59 = Inr tok \<and>
     fst (GenerateResponse exampleCore exampleEP tok 42 42
            (PublicKeyIdentifier ''irma-demo.MijnOverheid'' 2) 60 60 60
            (\<lambda>s commit challenge key. nat (s + challenge)) 60) = Inr r1 \<and>
     fst (GenerateResponse
            (snd (GenerateResponse exampleCore exampleEP tok 42 42
                    (PublicKeyIdentifier ''irma-demo.MijnOverheid'' 2) 60 60 60
                    (\<lambda>s commit challenge key. nat (s + challenge)) 60))
            exampleEP tok 42 42
            (PublicKeyIdentifier ''irma-demo.MijnOverheid'' 2) 61 61 61
            (\<lambda>s commit challenge key. nat (s + challenge)) 61) = Inl ErrUnknownCommit"
proof -
  let ?tok = "Compact (Some ''RS256'') (Some 1)
        [''iss'' \<mapsto> ClaimString ''keyshare_server'',
         ''sub'' \<mapsto> ClaimString ''auth_tok'',
         ''iat'' \<mapsto> ClaimNumber 59,
         ''exp'' \<mapsto> ClaimNumber 239,
         ''user_id'' \<mapsto> ClaimString ''u'',
         ''token_id'' \<mapsto> ClaimString (EncodeToString (replicate 32 7))]
        (Some (RSAPrivateKey 11)) :: nat jwt_string"
  let ?k = "PublicKeyIdentifier ''irma-demo.MijnOverheid'' 2"
  let ?kr = "\<lambda>(s :: int) (commit :: nat) (challenge :: int) (key :: nat). nat (s + challenge)"
  let ?first = "GenerateResponse exampleCore exampleEP ?tok 42 42 ?k 60 60 60 ?kr 60"
  let ?c' = "exampleCore\<lparr>commitmentData := (commitmentData exampleCore)(42 := None)\<rparr>"
  have first: "?first =
     ((case commitmentData exampleCore 42 of
         None \<Rightarrow> Inl ErrUnknownCommit
       | Some commit \<Rightarrow>
           Inr (Compact (Some ''RS256'') (Some (signKeyID exampleCore))
                  [''ProofP'' \<mapsto> ClaimProofP (?kr (keyshareSecret examplePacket) commit 42 7),
                   ''iat'' \<mapsto> ClaimNumber 60,
                   ''sub'' \<mapsto> ClaimString ''ProofP'',
                   ''iss'' \<mapsto> ClaimString ''keyshare_server'']
                  (Some (signKey exampleCore)))), ?c')"
    by (rule GenerateResponse_checked [OF example_bounds example_key example_access])
  then have snd_first: "snd ?first = ?c'" by (simp only: snd_conv)
  have acc2: "verifyAccess (snd ?first) exampleEP ?tok 61 61 61 = Inr examplePacket"
    unfolding snd_first verifyAccess_store by (simp add: claim_checks)
  have key2: "trustedKeys (snd ?first) ?k = Some 7"
    unfolding snd_first using example_key by simp
  have "fst (GenerateResponse (snd ?first) exampleEP ?tok 42 42 ?k 61 61 61 ?kr 61)
          = Inl ErrUnknownCommit"
  proof -
    have run: "?first = (fst ?first, snd ?first)" by simp
    show ?thesis
      by (rule commit_single_use [OF example_bounds example_key example_access run
            example_bounds key2 acc2])
  qed
  moreover have "\<exists>r1. fst ?first = Inr r1"
    unfolding first by (simp add: exampleCore_def)
  moreover have "ValidatePin exampleCore exampleEP ''1234'' ''u'' 59 59 = Inr ?tok"
    by (simp add: example_token)
  ultimately show ?thesis by blast
qed

section \<open>Challenge bounds (C5)\<close>

text \<open>
  C5. A challenge that is negative, or longer than \<open>Lh\<close> bits, makes
  \<open>GenerateResponse\<close> return \<open>ErrInvalidChallenge\<close> whatever the packet, the token,
  the key identifier and the commit identifier are (nothing is decrypted or
  looked up), and it leaves the core as it was. So a following call with the same
  commit identifier that passes the challenge, key and token checks still finds
  the record and returns a response token.
\<close>

theorem invalid_challenge_consumes_nothing:
  fixes accessToken tok' :: "'r jwt_string"
  assumes "BitLen challenge > Lh \<or> challenge < 0"
  shows "GenerateResponse c ep accessToken commitID challenge keyID now1 now2 now3 kr now_iat
           = (Inl ErrInvalidChallenge, c) \<and>
         (commitmentData c commitID = Some commit \<and>
          \<not> (BitLen good > Lh \<or> good < 0) \<and>
          trustedKeys c keyID' = Some key \<and>
          verifyAccess c ep' tok' m1 m2 m3 = Inr p
          \<longrightarrow> (\<exists>response c2.
                 GenerateResponse
                   (snd (GenerateResponse c ep accessToken commitID challenge keyID
                           now1 now2 now3 kr now_iat))
                   ep' tok' commitID good keyID' m1 m2 m3 kr' t' = (Inr response, c2)))"
proof -
  have bad: "GenerateResponse c ep accessToken commitID challenge keyID now1 now2 now3 kr now_iat
           = (Inl ErrInvalidChallenge, c)"
    using assms by (rule GenerateResponse_bad_challenge)
  have "\<exists>response c2. GenerateResponse c ep' tok' commitID good keyID' m1 m2 m3 kr' t'
            = (Inr response, c2)"
    if "commitmentData c commitID = Some commit" "\<not> (BitLen good > Lh \<or> good < 0)"
       "trustedKeys c keyID' = Some key" "verifyAccess c ep' tok' m1 m2 m3 = Inr p"
    using that by (simp add: GenerateResponse_checked)
  with bad show ?thesis by simp
qed

lemma example_store: "commitmentData exampleCore 42 = Some 99"
  by (simp add: exampleCore_def)

theorem invalid_challenge_consumes_nothing_witness:
  "BitLen (2 ^ 256) > Lh \<and> (-1 :: int) < 0 \<and>
   GenerateResponse exampleCore exampleEP (NotAToken :: nat jwt_string) 42 (2 ^ 256)
     (PublicKeyIdentifier ''unknown'' 0) 60 60 60 (\<lambda>s commit challenge key. 0) 60
     = (Inl ErrInvalidChallenge, exampleCore) \<and>
   GenerateResponse exampleCore exampleEP (NotAToken :: nat jwt_string) 42 (-1)
     (PublicKeyIdentifier ''unknown'' 0) 60 60 60 (\<lambda>s commit challenge key. 0) 60
     = (Inl ErrInvalidChallenge, exampleCore) \<and>
   (\<exists>response c2.
      GenerateResponse
        (snd (GenerateResponse exampleCore exampleEP (NotAToken :: nat jwt_string) 42 (2 ^ 256)
                (PublicKeyIdentifier ''unknown'' 0) 60 60 60 (\<lambda>s commit challenge key. 0) 60))
        exampleEP
        (Compact (Some ''RS256'') (Some 1)
           [''iss'' \<mapsto> ClaimString ''keyshare_server'',
            ''sub'' \<mapsto> ClaimString ''auth_tok'',
            ''iat'' \<mapsto> ClaimNumber 59,
            ''exp'' \<mapsto> ClaimNumber 239,
            ''user_id'' \<mapsto> ClaimString ''u'',
            ''token_id'' \<mapsto> ClaimString (EncodeToString (replicate 32 7))]
           (Some (RSAPrivateKey 11)) :: nat jwt_string)
        42 42 (PublicKeyIdentifier ''irma-demo.MijnOverheid'' 2) 60 60 60
        (\<lambda>s commit challenge key. 0) 60 = (Inr response, c2))"
proof -
  let ?tok = "Compact (Some ''RS256'') (Some 1)
           [''iss'' \<mapsto> ClaimString ''keyshare_server'',
            ''sub'' \<mapsto> ClaimString ''auth_tok'',
            ''iat'' \<mapsto> ClaimNumber 59,
            ''exp'' \<mapsto> ClaimNumber 239,
            ''user_id'' \<mapsto> ClaimString ''u'',
            ''token_id'' \<mapsto> ClaimString (EncodeToString (replicate 32 7))]
           (Some (RSAPrivateKey 11)) :: nat jwt_string"
  let ?kr = "\<lambda>(s :: int) (commit :: nat) (challenge :: int) (key :: nat). 0 :: nat"
  let ?big = "GenerateResponse exampleCore exampleEP (NotAToken :: nat jwt_string) 42 (2 ^ 256)
     (PublicKeyIdentifier ''unknown'' 0) 60 60 60 ?kr 60"
  let ?neg = "GenerateResponse exampleCore exampleEP (NotAToken :: nat jwt_string) 42 (-1)
     (PublicKeyIdentifier ''unknown'' 0) 60 60 60 ?kr 60"
  have big1: "BitLen (2 ^ 256) > Lh"
    unfolding BitLen_pow2 Lh_def by simp
  then have big: "BitLen (2 ^ 256) > Lh \<or> (2 ^ 256 :: int) < 0" ..
  have neg1: "(-1 :: int) < 0" by simp
  then have neg: "BitLen (-1) > Lh \<or> (-1 :: int) < 0" ..
  have a: "?big = (Inl ErrInvalidChallenge, exampleCore) \<and>
         (commitmentData exampleCore 42 = Some 99 \<and>
          \<not> (BitLen 42 > Lh \<or> (42 :: int) < 0) \<and>
          trustedKeys exampleCore (PublicKeyIdentifier ''irma-demo.MijnOverheid'' 2) = Some 7 \<and>
          verifyAccess exampleCore exampleEP ?tok 60 60 60 = Inr examplePacket
          \<longrightarrow> (\<exists>response c2.
                 GenerateResponse (snd ?big) exampleEP ?tok 42 42
                   (PublicKeyIdentifier ''irma-demo.MijnOverheid'' 2) 60 60 60 ?kr 60
                 = (Inr response, c2)))"
    by (rule invalid_challenge_consumes_nothing [OF big])
  have b: "?neg = (Inl ErrInvalidChallenge, exampleCore) \<and>
         (commitmentData exampleCore 42 = Some 99 \<and>
          \<not> (BitLen 42 > Lh \<or> (42 :: int) < 0) \<and>
          trustedKeys exampleCore (PublicKeyIdentifier ''irma-demo.MijnOverheid'' 2) = Some 7 \<and>
          verifyAccess exampleCore exampleEP ?tok 60 60 60 = Inr examplePacket
          \<longrightarrow> (\<exists>response c2.
                 GenerateResponse (snd ?neg) exampleEP ?tok 42 42
                   (PublicKeyIdentifier ''irma-demo.MijnOverheid'' 2) 60 60 60 ?kr 60
                 = (Inr response, c2)))"
    by (rule invalid_challenge_consumes_nothing [OF neg])
  have hyps: "commitmentData exampleCore 42 = Some 99 \<and>
          \<not> (BitLen 42 > Lh \<or> (42 :: int) < 0) \<and>
          trustedKeys exampleCore (PublicKeyIdentifier ''irma-demo.MijnOverheid'' 2) = Some 7 \<and>
          verifyAccess exampleCore exampleEP ?tok 60 60 60 = Inr examplePacket"
    using example_store example_bounds example_key example_access by (intro conjI)
  from a [THEN conjunct2, THEN mp, OF hyps] a [THEN conjunct1] b [THEN conjunct1] big1 neg1
  show ?thesis by (intro conjI) assumption+
qed

subsection \<open>\<open>GenerateCommitments\<close> step by step\<close>

lemma GenerateCommitments_Inl:
  "GenerateCommitments c ep accessToken keyIDs now1 now2 now3 newCommitments commitIDDraw
     = (Inl e, c') \<Longrightarrow> c' = c"
  by (auto simp: GenerateCommitments_def split: sum.splits prod.splits)

lemma GenerateCommitments_Inr:
  "GenerateCommitments c ep accessToken keyIDs now1 now2 now3 newCommitments commitIDDraw
     = (Inr (commitments, commitID), c') \<Longrightarrow>
   commitIDDraw = Inr commitID \<and>
   (\<exists>keyList p commitSecret.
      lookupKeys (trustedKeys c) keyIDs [] = Inr keyList \<and>
      verifyAccess c ep accessToken now1 now2 now3 = Inr p \<and>
      newCommitments (keyshareSecret p) keyList = Inr (commitSecret, commitments) \<and>
      c' = c\<lparr>commitmentData := (commitmentData c)(commitID \<mapsto> commitSecret)\<rparr>)"
  by (auto simp: GenerateCommitments_def split: sum.splits prod.splits)

lemma GenerateResponse_state:
  "snd (GenerateResponse c ep accessToken commitID challenge keyID now1 now2 now3 kr now_iat) =
     (if \<not> (BitLen challenge > Lh \<or> challenge < 0) \<and> trustedKeys c keyID \<noteq> None \<and>
         (\<exists>p. verifyAccess c ep accessToken now1 now2 now3 = Inr p)
      then c\<lparr>commitmentData := (commitmentData c)(commitID := None)\<rparr>
      else c)"
  by (auto simp: GenerateResponse_def Let_def split: option.splits sum.splits)

section \<open>Who writes to the commitment store (C9)\<close>

text \<open>
  C9. Of the public operations of the engine, \<open>GenerateKeyshareSecret\<close>,
  \<open>DangerousBuildKeyshareSecret\<close>, \<open>ValidatePin\<close>, \<open>ValidateJWT\<close> and
  \<open>ChangePin\<close> leave the core, and so the commitment store, as it was on every
  path. \<open>GenerateCommitments\<close> leaves it as it was when it fails, and when it
  succeeds it adds exactly one entry, under the commit identifier that it drew and
  returns. \<open>GenerateResponse\<close> removes the entry under the commit identifier it was
  given, and nothing else, exactly when the challenge, key and token checks have
  passed, and otherwise leaves the core as it was.
\<close>

theorem commitment_store_frame:
  assumes "engine c call = (reply, c')"
  shows
  "case call of
     CallGenerateCommitments ep accessToken keyIDs now1 now2 now3 newCommitments commitIDDraw \<Rightarrow>
       (case reply of
          ReplyCommitments (Inr (commitments, commitID)) \<Rightarrow>
            commitIDDraw = Inr commitID \<and>
            (\<exists>commitSecret.
               c' = c\<lparr>commitmentData := (commitmentData c)(commitID \<mapsto> commitSecret)\<rparr>)
        | _ \<Rightarrow> c' = c)
   | CallGenerateResponse ep accessToken commitID challenge keyID now1 now2 now3 kr now_iat \<Rightarrow>
       c' = (if \<not> (BitLen challenge > Lh \<or> challenge < 0) \<and> trustedKeys c keyID \<noteq> None \<and>
                (\<exists>p. verifyAccess c ep accessToken now1 now2 now3 = Inr p)
             then c\<lparr>commitmentData := (commitmentData c)(commitID := None)\<rparr>
             else c)
   | _ \<Rightarrow> c' = c"
proof (cases call)
  case (CallGenerateCommitments ep accessToken keyIDs now1 now2 now3 newCommitments commitIDDraw)
  obtain r c1 where run: "GenerateCommitments c ep accessToken keyIDs now1 now2 now3
      newCommitments commitIDDraw = (r, c1)"
    by (cases "GenerateCommitments c ep accessToken keyIDs now1 now2 now3
      newCommitments commitIDDraw")
  with assms CallGenerateCommitments have reply: "reply = ReplyCommitments r" and c': "c' = c1"
    by simp_all
  show ?thesis
  proof (cases r)
    case (Inl e)
    with run have "c1 = c" by (auto dest: GenerateCommitments_Inl)
    with CallGenerateCommitments reply c' Inl show ?thesis by simp
  next
    case (Inr res)
    obtain commitments commitID where res: "res = (commitments, commitID)" by (cases res)
    from run Inr res GenerateCommitments_Inr [of c ep accessToken keyIDs now1 now2 now3
        newCommitments commitIDDraw commitments commitID c1]
    have "commitIDDraw = Inr commitID \<and>
      (\<exists>commitSecret. c1 = c\<lparr>commitmentData := (commitmentData c)(commitID \<mapsto> commitSecret)\<rparr>)"
      by auto
    with CallGenerateCommitments reply c' Inr res show ?thesis by simp
  qed
next
  case (CallGenerateResponse ep accessToken commitID challenge keyID now1 now2 now3 kr now_iat)
  with assms have "c' = snd (GenerateResponse c ep accessToken commitID challenge keyID
      now1 now2 now3 kr now_iat)"
    by (auto split: prod.splits)
  with CallGenerateResponse show ?thesis
    by (simp only: GenerateResponse_state call.case)
qed (use assms in auto)

lemma example_commitments:
  "GenerateCommitments exampleCore exampleEP
     (Compact (Some ''RS256'') (Some 1)
        [''iss'' \<mapsto> ClaimString ''keyshare_server'',
         ''sub'' \<mapsto> ClaimString ''auth_tok'',
         ''iat'' \<mapsto> ClaimNumber 59,
         ''exp'' \<mapsto> ClaimNumber 239,
         ''user_id'' \<mapsto> ClaimString ''u'',
         ''token_id'' \<mapsto> ClaimString (EncodeToString (replicate 32 7))]
        (Some (RSAPrivateKey 11)))
     [PublicKeyIdentifier ''irma-demo.MijnOverheid'' 2] 60 60 60
     (\<lambda>s keys. Inr (55, keys)) (Inr 77)
   = (Inr ([7], 77),
      exampleCore\<lparr>commitmentData := (commitmentData exampleCore)(77 \<mapsto> 55)\<rparr>)"
  using example_key
  by (simp add: GenerateCommitments_def example_access)

theorem commitment_store_frame_witness:
  "(\<exists>commitSecret.
      snd (engine exampleCore
        (CallGenerateCommitments exampleEP
           (Compact (Some ''RS256'') (Some 1)
              [''iss'' \<mapsto> ClaimString ''keyshare_server'',
               ''sub'' \<mapsto> ClaimString ''auth_tok'',
               ''iat'' \<mapsto> ClaimNumber 59,
               ''exp'' \<mapsto> ClaimNumber 239,
               ''user_id'' \<mapsto> ClaimString ''u'',
               ''token_id'' \<mapsto> ClaimString (EncodeToString (replicate 32 7))]
              (Some (RSAPrivateKey 11)) :: nat jwt_string)
           [PublicKeyIdentifier ''irma-demo.MijnOverheid'' 2] 60 60 60
           (\<lambda>s keys. Inr (55, keys)) (Inr 77)))
      = exampleCore\<lparr>commitmentData := (commitmentData exampleCore)(77 \<mapsto> commitSecret)\<rparr>) \<and>
   snd (engine exampleCore
          (CallValidatePin exampleEP ''1234'' ''u'' 59 59 :: (nat, nat, nat, nat) call))
     = exampleCore \<and>
   snd (engine exampleCore
          (CallGenerateResponse exampleEP (NotAToken :: nat jwt_string) 42 42
             (PublicKeyIdentifier ''irma-demo.MijnOverheid'' 2) 60 60 60
             (\<lambda>s commit challenge key. 0) 60 :: (nat, nat, nat, nat) call))
     = exampleCore"
proof -
  let ?tok = "Compact (Some ''RS256'') (Some 1)
              [''iss'' \<mapsto> ClaimString ''keyshare_server'',
               ''sub'' \<mapsto> ClaimString ''auth_tok'',
               ''iat'' \<mapsto> ClaimNumber 59,
               ''exp'' \<mapsto> ClaimNumber 239,
               ''user_id'' \<mapsto> ClaimString ''u'',
               ''token_id'' \<mapsto> ClaimString (EncodeToString (replicate 32 7))]
              (Some (RSAPrivateKey 11)) :: nat jwt_string"
  let ?commit = "CallGenerateCommitments exampleEP ?tok
           [PublicKeyIdentifier ''irma-demo.MijnOverheid'' 2] 60 60 60
           (\<lambda>s keys. Inr (55, keys)) (Inr 77) :: (nat, nat, nat, nat) call"
  let ?pin = "CallValidatePin exampleEP ''1234'' ''u'' 59 59 :: (nat, nat, nat, nat) call"
  let ?resp = "CallGenerateResponse exampleEP (NotAToken :: nat jwt_string) 42 42
             (PublicKeyIdentifier ''irma-demo.MijnOverheid'' 2) 60 60 60
             (\<lambda>s commit challenge key. 0) 60 :: (nat, nat, nat, nat) call"
  have run1: "engine exampleCore ?commit =
      (ReplyCommitments (Inr ([7], 77)), snd (engine exampleCore ?commit))"
    by (simp add: example_commitments)
  have run2: "engine exampleCore ?pin = (fst (engine exampleCore ?pin), snd (engine exampleCore ?pin))"
    by simp
  have run3: "engine exampleCore ?resp = (fst (engine exampleCore ?resp), snd (engine exampleCore ?resp))"
    by simp
  have na: "\<nexists>p. verifyAccess exampleCore exampleEP (NotAToken :: nat jwt_string) 60 60 60 = Inr p"
    by (simp add: verifyAccess_NotAToken)
  from commitment_store_frame [OF run1] commitment_store_frame [OF run2]
    commitment_store_frame [OF run3] na
  show ?thesis by simp
qed

end
